theory Spec2Isabelle
  imports Complex_Main "HOL-Library.Signed_Division" "HOL-Library.Monad_Syntax"
begin

section \<open>The DNN face detector of modules/dnn_face/src/detect.cpp\<close>

text \<open>
  The development embeds \<^verbatim>\<open>DNNFaceDetectorImpl::generatePriors\<close> and
  \<^verbatim>\<open>DNNFaceDetectorImpl::postProcess\<close>.

  Conventions of the embedding:
  \<^item> the source's \<^verbatim>\<open>int\<close> is \<^typ>\<open>int\<close>; integer division is C++'s (truncation
    towards zero, \<open>sdiv\<close>), and the one addition that can leave the 32-bit range
    (\<^verbatim>\<open>img_w+1\<close>) is wrapped explicitly by \<open>wrap32\<close>;
  \<^item> the source's \<^verbatim>\<open>float\<close> and \<^verbatim>\<open>double\<close> are \<^typ>\<open>real\<close>: every formula is
    the exact real-number formula, rounding is not modelled;
  \<^item> \<^verbatim>\<open>cv::Size\<close> and \<^verbatim>\<open>cv::Rect_<T>\<close> are records, a \<^verbatim>\<open>std::vector\<close> is a list,
    \<^verbatim>\<open>push_back\<close> appends at the end;
  \<^item> a blob read through a raw \<^verbatim>\<open>float*\<close> is a list of reals; a read past its end
    (undefined behaviour in the source) is the value \<open>None\<close>.
\<close>

subsection \<open>Data\<close>

record Size =
  width :: int
  height :: int

record 'a Rect_ =
  rect_x :: 'a
  rect_y :: 'a
  rect_width :: 'a
  rect_height :: 'a

type_synonym Rect2f = "real Rect_"
type_synonym Rect2i = "int Rect_"

subsection \<open>generatePriors\<close>

definition wrap32 :: "int \<Rightarrow> int" where
  "wrap32 k = (k + 2147483648) mod 4294967296 - 2147483648"

definition feature_map_2nd :: "int \<Rightarrow> int \<Rightarrow> Size" where
  "feature_map_2nd img_w img_h =
     \<lparr>width = (wrap32 (img_w + 1) sdiv 2) sdiv 2, height = (wrap32 (img_h + 1) sdiv 2) sdiv 2\<rparr>"

definition feature_map_3rd :: "int \<Rightarrow> int \<Rightarrow> Size" where
  "feature_map_3rd img_w img_h =
     \<lparr>width = width (feature_map_2nd img_w img_h) sdiv 2,
      height = height (feature_map_2nd img_w img_h) sdiv 2\<rparr>"

definition feature_map_4th :: "int \<Rightarrow> int \<Rightarrow> Size" where
  "feature_map_4th img_w img_h =
     \<lparr>width = width (feature_map_3rd img_w img_h) sdiv 2,
      height = height (feature_map_3rd img_w img_h) sdiv 2\<rparr>"

definition feature_map_5th :: "int \<Rightarrow> int \<Rightarrow> Size" where
  "feature_map_5th img_w img_h =
     \<lparr>width = width (feature_map_4th img_w img_h) sdiv 2,
      height = height (feature_map_4th img_w img_h) sdiv 2\<rparr>"

definition feature_map_6th :: "int \<Rightarrow> int \<Rightarrow> Size" where
  "feature_map_6th img_w img_h =
     \<lparr>width = width (feature_map_5th img_w img_h) sdiv 2,
      height = height (feature_map_5th img_w img_h) sdiv 2\<rparr>"

definition feature_map_sizes :: "int \<Rightarrow> int \<Rightarrow> Size list" where
  "feature_map_sizes img_w img_h =
     [feature_map_3rd img_w img_h, feature_map_4th img_w img_h,
      feature_map_5th img_w img_h, feature_map_6th img_w img_h]"

definition min_sizes :: "real list list" where
  "min_sizes = [[10, 16, 24], [32, 48], [64, 96], [128, 192, 256]]"

definition steps :: "int list" where
  "steps = [8, 16, 32, 64]"

text \<open>The body of the innermost loop: the prior pushed for cell \<open>(_h, _w)\<close> and size \<open>s\<close>.\<close>

definition make_prior :: "int \<Rightarrow> int \<Rightarrow> int \<Rightarrow> int \<Rightarrow> int \<Rightarrow> real \<Rightarrow> Rect2f" where
  "make_prior img_w img_h step h' w' s =
     (let s_kx = s / real_of_int img_w;
          s_ky = s / real_of_int img_h;
          cx = (real_of_int w' + 0.5) * real_of_int step / real_of_int img_w;
          cy = (real_of_int h' + 0.5) * real_of_int step / real_of_int img_h
      in \<lparr>rect_x = cx, rect_y = cy, rect_width = s_kx, rect_height = s_ky\<rparr>)"

text \<open>The four nested \<^verbatim>\<open>for\<close> loops, innermost first; \<open>priors\<close> is the member vector.\<close>

function priors_loop_j ::
  "int \<Rightarrow> int \<Rightarrow> real list \<Rightarrow> int \<Rightarrow> int \<Rightarrow> int \<Rightarrow> nat \<Rightarrow> Rect2f list \<Rightarrow> Rect2f list" where
  "priors_loop_j img_w img_h min_size step h' w' j priors =
     (if j < length min_size
      then priors_loop_j img_w img_h min_size step h' w' (j + 1)
             (priors @ [make_prior img_w img_h step h' w' (min_size ! j)])
      else priors)"
  by pat_completeness auto
termination
  by (relation "measure (\<lambda>(img_w, img_h, min_size, step, h', w', j, priors). length min_size - j)")
     auto

function priors_loop_w ::
  "int \<Rightarrow> int \<Rightarrow> Size \<Rightarrow> real list \<Rightarrow> int \<Rightarrow> int \<Rightarrow> int \<Rightarrow> Rect2f list \<Rightarrow> Rect2f list" where
  "priors_loop_w img_w img_h feature_map_size min_size step h' w' priors =
     (if w' < width feature_map_size
      then priors_loop_w img_w img_h feature_map_size min_size step h' (w' + 1)
             (priors_loop_j img_w img_h min_size step h' w' 0 priors)
      else priors)"
  by pat_completeness auto
termination
  by (relation "measure (\<lambda>(img_w, img_h, fm, min_size, step, h', w', priors). nat (width fm - w'))")
     auto

function priors_loop_h ::
  "int \<Rightarrow> int \<Rightarrow> Size \<Rightarrow> real list \<Rightarrow> int \<Rightarrow> int \<Rightarrow> Rect2f list \<Rightarrow> Rect2f list" where
  "priors_loop_h img_w img_h feature_map_size min_size step h' priors =
     (if h' < height feature_map_size
      then priors_loop_h img_w img_h feature_map_size min_size step (h' + 1)
             (priors_loop_w img_w img_h feature_map_size min_size step h' 0 priors)
      else priors)"
  by pat_completeness auto
termination
  by (relation "measure (\<lambda>(img_w, img_h, fm, min_size, step, h', priors). nat (height fm - h'))")
     auto

function priors_loop_i :: "int \<Rightarrow> int \<Rightarrow> nat \<Rightarrow> Rect2f list \<Rightarrow> Rect2f list" where
  "priors_loop_i img_w img_h i priors =
     (if i < length (feature_map_sizes img_w img_h)
      then priors_loop_i img_w img_h (i + 1)
             (priors_loop_h img_w img_h (feature_map_sizes img_w img_h ! i) (min_sizes ! i)
                (steps ! i) 0 priors)
      else priors)"
  by pat_completeness auto
termination
  by (relation "measure (\<lambda>(img_w, img_h, i, priors). length (feature_map_sizes img_w img_h) - i)")
     auto

definition generatePriors :: "int \<Rightarrow> int \<Rightarrow> Rect2f list" where
  "generatePriors img_w img_h = priors_loop_i img_w img_h 0 []"

text \<open>
  The traversal order as the specification words it: levels in order, rows, columns, the
  level's sizes in listed order. The feature-map sizes are the detector's.
\<close>

definition level_priors_spec :: "int \<Rightarrow> int \<Rightarrow> Size \<Rightarrow> int \<Rightarrow> real list \<Rightarrow> Rect2f list" where
  "level_priors_spec image_width image_height fm stride sizes =
     concat (map (\<lambda>h'. concat (map (\<lambda>w'. map (\<lambda>s.
        \<lparr>rect_x = (real_of_int w' + 0.5) * real_of_int stride / real_of_int image_width,
         rect_y = (real_of_int h' + 0.5) * real_of_int stride / real_of_int image_height,
         rect_width = s / real_of_int image_width,
         rect_height = s / real_of_int image_height\<rparr>) sizes)
       [0 .. width fm - 1])) [0 .. height fm - 1])"

definition priors_spec :: "int \<Rightarrow> int \<Rightarrow> Rect2f list" where
  "priors_spec image_width image_height =
     level_priors_spec image_width image_height (feature_map_3rd image_width image_height) 8 [10, 16, 24]
     @ level_priors_spec image_width image_height (feature_map_4th image_width image_height) 16 [32, 48]
     @ level_priors_spec image_width image_height (feature_map_5th image_width image_height) 32 [64, 96]
     @ level_priors_spec image_width image_height (feature_map_6th image_width image_height) 64 [128, 192, 256]"

subsection \<open>postProcess\<close>

text \<open>
  A read \<^verbatim>\<open>v[k]\<close> through one of the raw pointers \<^verbatim>\<open>loc_v\<close>, \<^verbatim>\<open>conf_v\<close>, \<^verbatim>\<open>iou_v\<close>:
  the value when \<open>k\<close> lies inside the blob's data, \<open>None\<close> when it does not (the source
  reads whatever memory lies there).
\<close>

definition rd :: "real list \<Rightarrow> nat \<Rightarrow> real option" where
  "rd v k = (if k < length v then Some (v ! k) else None)"

definition variance :: "real list" where
  "variance = [0.1, 0.2]"

text \<open>
  The body of the decode loop: the row \<^verbatim>\<open>face\<close> of 15 values
  (tl_x, tl_y, w, h, five landmark points, score) for anchor \<open>i\<close>. The loop guard keeps
  \<open>i\<close> below \<^verbatim>\<open>priors.size()\<close>, so \<^verbatim>\<open>priors[i]\<close> is in range.
\<close>

definition decode_face ::
  "Rect2f list \<Rightarrow> int \<Rightarrow> int \<Rightarrow> real list \<Rightarrow> real list \<Rightarrow> real list \<Rightarrow> nat \<Rightarrow> real list option" where
  "decode_face priors img_w img_h loc_v conf_v iou_v i = do {
     clsScore \<leftarrow> rd conf_v (i * 2 + 1);
     iouScore \<leftarrow> rd iou_v i;
     let iouScore = (if iouScore < 0 then 0 else if iouScore > 1 then 1 else iouScore);
     let score = sqrt (clsScore * iouScore);
     l0 \<leftarrow> rd loc_v (i * 14 + 0);
     l1 \<leftarrow> rd loc_v (i * 14 + 1);
     l2 \<leftarrow> rd loc_v (i * 14 + 2);
     l3 \<leftarrow> rd loc_v (i * 14 + 3);
     let cx = (rect_x (priors ! i) + l0 * variance ! 0 * rect_width (priors ! i)) * real_of_int img_w;
     let cy = (rect_y (priors ! i) + l1 * variance ! 0 * rect_height (priors ! i)) * real_of_int img_h;
     let w = rect_width (priors ! i) * exp (l2 * variance ! 0) * real_of_int img_w;
     let h = rect_height (priors ! i) * exp (l3 * variance ! 1) * real_of_int img_h;
     let x1 = cx - w / 2;
     let y1 = cy - h / 2;
     l4 \<leftarrow> rd loc_v (i * 14 + 4);
     l5 \<leftarrow> rd loc_v (i * 14 + 5);
     l6 \<leftarrow> rd loc_v (i * 14 + 6);
     l7 \<leftarrow> rd loc_v (i * 14 + 7);
     l8 \<leftarrow> rd loc_v (i * 14 + 8);
     l9 \<leftarrow> rd loc_v (i * 14 + 9);
     l10 \<leftarrow> rd loc_v (i * 14 + 10);
     l11 \<leftarrow> rd loc_v (i * 14 + 11);
     l12 \<leftarrow> rd loc_v (i * 14 + 12);
     l13 \<leftarrow> rd loc_v (i * 14 + 13);
     Some [x1, y1, w, h,
       (rect_x (priors ! i) + l4 * variance ! 0 * rect_width (priors ! i)) * real_of_int img_w,
       (rect_y (priors ! i) + l5 * variance ! 0 * rect_height (priors ! i)) * real_of_int img_h,
       (rect_x (priors ! i) + l6 * variance ! 0 * rect_width (priors ! i)) * real_of_int img_w,
       (rect_y (priors ! i) + l7 * variance ! 0 * rect_height (priors ! i)) * real_of_int img_h,
       (rect_x (priors ! i) + l8 * variance ! 0 * rect_width (priors ! i)) * real_of_int img_w,
       (rect_y (priors ! i) + l9 * variance ! 0 * rect_height (priors ! i)) * real_of_int img_h,
       (rect_x (priors ! i) + l10 * variance ! 0 * rect_width (priors ! i)) * real_of_int img_w,
       (rect_y (priors ! i) + l11 * variance ! 0 * rect_height (priors ! i)) * real_of_int img_h,
       (rect_x (priors ! i) + l12 * variance ! 0 * rect_width (priors ! i)) * real_of_int img_w,
       (rect_y (priors ! i) + l13 * variance ! 0 * rect_height (priors ! i)) * real_of_int img_h,
       score]
   }"

text \<open>The decode loop over the anchors; \<open>faces\<close> is the matrix being built, row by row.\<close>

function decode_loop ::
  "Rect2f list \<Rightarrow> int \<Rightarrow> int \<Rightarrow> real list \<Rightarrow> real list \<Rightarrow> real list \<Rightarrow> nat \<Rightarrow> real list list
     \<Rightarrow> real list list option" where
  "decode_loop priors img_w img_h loc_v conf_v iou_v i faces =
     (if i < length priors
      then (case decode_face priors img_w img_h loc_v conf_v iou_v i of
              None \<Rightarrow> None
            | Some face \<Rightarrow> decode_loop priors img_w img_h loc_v conf_v iou_v (i + 1) (faces @ [face]))
      else Some faces)"
  by pat_completeness auto
termination
  by (relation "measure (\<lambda>(priors, img_w, img_h, loc_v, conf_v, iou_v, i, faces). length priors - i)")
     auto

text \<open>
  The conversion of a \<^verbatim>\<open>float\<close> to \<^verbatim>\<open>int\<close> that the constructor call
  \<^verbatim>\<open>Rect2i(float, float, float, float)\<close> performs on each argument: truncation towards zero.
\<close>

definition float_to_int :: "real \<Rightarrow> int" where
  "float_to_int v = (if 0 \<le> v then \<lfloor>v\<rfloor> else \<lceil>v\<rceil>)"

definition faceBox :: "real list \<Rightarrow> Rect2i" where
  "faceBox face = \<lparr>rect_x = float_to_int (face ! 0), rect_y = float_to_int (face ! 1),
                   rect_width = float_to_int (face ! 2), rect_height = float_to_int (face ! 3)\<rparr>"

definition faceScore :: "real list \<Rightarrow> real" where
  "faceScore face = face ! 14"

text \<open>
  The loop collecting \<^verbatim>\<open>faces.row(idx)\<close> for the kept indices; a row index outside the
  matrix is \<open>None\<close>.
\<close>

fun nms_faces_loop :: "real list list \<Rightarrow> nat list \<Rightarrow> real list list \<Rightarrow> real list list option" where
  "nms_faces_loop faces [] nms_faces = Some nms_faces"
| "nms_faces_loop faces (idx # keepIdx) nms_faces =
     (if idx < length faces then nms_faces_loop faces keepIdx (nms_faces @ [faces ! idx]) else None)"

text \<open>
  \<^verbatim>\<open>dnn::NMSBoxes\<close> belongs to another library; \<open>postProcess_with\<close> is postProcess with
  that function as its first argument \<open>nms\<close>, called as the source calls it:
  boxes, scores, score threshold, NMS threshold, eta = 1, top_k; its result is \<^verbatim>\<open>keepIdx\<close>.
\<close>

type_synonym nms_fun = "Rect2i list \<Rightarrow> real list \<Rightarrow> real \<Rightarrow> real \<Rightarrow> real \<Rightarrow> int \<Rightarrow> nat list"

definition postProcess_with ::
  "nms_fun \<Rightarrow> Rect2f list \<Rightarrow> int \<Rightarrow> int \<Rightarrow> real \<Rightarrow> real \<Rightarrow> int
     \<Rightarrow> real list \<Rightarrow> real list \<Rightarrow> real list \<Rightarrow> real list list option" where
  "postProcess_with nms priors img_w img_h scoreThreshold nmsThreshold topK loc conf iou =
     (case decode_loop priors img_w img_h loc conf iou 0 [] of
        None \<Rightarrow> None
      | Some faces \<Rightarrow>
          if length faces > 1
          then (let faceBoxes = map faceBox faces;
                    faceScores = map faceScore faces;
                    keepIdx = nms faceBoxes faceScores scoreThreshold nmsThreshold 1 topK
                in nms_faces_loop faces keepIdx [])
          else Some faces)"

subsection \<open>Non-maximum suppression\<close>

text \<open>
  Modelled from the spec: the area of a rectangle, used by the IoU of \<^verbatim>\<open>dnn::NMSBoxes\<close>,
  which belongs to the OpenCV dnn module, outside this repository.
\<close>

definition rect_area :: "('a::linordered_idom) Rect_ \<Rightarrow> 'a" where
  "rect_area r = rect_width r * rect_height r"

text \<open>
  Modelled from the spec: the area of the intersection of two half-open rectangles
  (section 4.3, step 3), for the IoU of \<^verbatim>\<open>dnn::NMSBoxes\<close>.
\<close>

definition intersection_area :: "('a::linordered_idom) Rect_ \<Rightarrow> 'a Rect_ \<Rightarrow> 'a" where
  "intersection_area a b =
     max 0 (min (rect_x a + rect_width a) (rect_x b + rect_width b) - max (rect_x a) (rect_x b))
     * max 0 (min (rect_y a + rect_height a) (rect_y b + rect_height b) - max (rect_y a) (rect_y b))"

text \<open>
  Modelled from the spec: area of intersection divided by area of union (section 4.3,
  step 3). The specification does not say what the ratio is where the union is empty; it
  is taken to be 0 there.
\<close>

definition ratio :: "real \<Rightarrow> real \<Rightarrow> real" where
  "ratio inter_area union_area = (if union_area = 0 then 0 else inter_area / union_area)"

text \<open>
  Modelled from the spec: the IoU of two integer rectangles, as \<^verbatim>\<open>dnn::NMSBoxes\<close>
  computes it on the \<^verbatim>\<open>Rect2i\<close> boxes it is given.
\<close>

definition IoU :: "Rect2i \<Rightarrow> Rect2i \<Rightarrow> real" where
  "IoU a b = ratio (real_of_int (intersection_area a b))
                   (real_of_int (rect_area a + rect_area b - intersection_area a b))"

text \<open>
  Modelled from the spec: the greedy walk of \<^verbatim>\<open>dnn::NMSBoxes\<close> (section 4.3, step 3)
  over the ranked indices: the first remaining candidate is accepted, and every later
  candidate whose IoU with it exceeds \<open>nms_threshold\<close> is discarded; the accepted indices
  are returned in the order of acceptance (step 4).
\<close>

fun greedy_nms :: "Rect2i list \<Rightarrow> real \<Rightarrow> nat list \<Rightarrow> nat list" where
  "greedy_nms bboxes nms_threshold [] = []"
| "greedy_nms bboxes nms_threshold (i # rest) =
     i # greedy_nms bboxes nms_threshold
           (filter (\<lambda>j. \<not> IoU (bboxes ! i) (bboxes ! j) > nms_threshold) rest)"

text \<open>
  Modelled from the spec: the candidates of \<^verbatim>\<open>dnn::NMSBoxes\<close> that are eligible to
  survive, those whose score is at least \<open>score_threshold\<close> (section 4.3, step 1).
\<close>

definition eligible :: "real list \<Rightarrow> real \<Rightarrow> nat list" where
  "eligible scores score_threshold = filter (\<lambda>i. scores ! i \<ge> score_threshold) [0 ..< length scores]"

text \<open>
  Modelled from the spec: the cap of \<^verbatim>\<open>dnn::NMSBoxes\<close> (section 4.3, step 2): if the
  ranked pool exceeds \<open>top_k\<close>, only its first \<open>top_k\<close> members are retained.
\<close>

definition retain_top_k :: "int \<Rightarrow> nat list \<Rightarrow> nat list" where
  "retain_top_k top_k order = (if int (length order) > top_k then take (nat top_k) order else order)"

text \<open>
  Modelled from the spec: \<^verbatim>\<open>dnn::NMSBoxes\<close>, which the source calls and which belongs to the
  OpenCV dnn module, outside this repository. Section 4.3 of the specification: the eligible candidates are
  sorted by score, descending, ties in input order (\<open>sort_key\<close> is a stable insertion
  sort), capped at \<open>top_k\<close>, and walked greedily. The specification has no adaptive
  threshold, so \<open>eta\<close> is not used.
\<close>

definition NMSBoxes :: nms_fun where
  "NMSBoxes bboxes scores score_threshold nms_threshold eta top_k =
     greedy_nms bboxes nms_threshold
       (retain_top_k top_k (sort_key (\<lambda>i. - (scores ! i)) (eligible scores score_threshold)))"

subsection \<open>The detector\<close>

definition postProcess ::
  "Rect2f list \<Rightarrow> int \<Rightarrow> int \<Rightarrow> real \<Rightarrow> real \<Rightarrow> int
     \<Rightarrow> real list \<Rightarrow> real list \<Rightarrow> real list \<Rightarrow> real list list option" where
  "postProcess = postProcess_with NMSBoxes"

text \<open>
  The detection pipeline: the constructor stores the resolution and the thresholds and
  generates the priors; \<^verbatim>\<open>forward\<close> hands the three output blobs of the network to
  postProcess.
\<close>

definition detect ::
  "int \<Rightarrow> int \<Rightarrow> real list \<Rightarrow> real list \<Rightarrow> real list \<Rightarrow> real \<Rightarrow> real \<Rightarrow> int \<Rightarrow> real list list option" where
  "detect image_width image_height loc conf iou score_threshold nms_threshold top_k =
     postProcess (generatePriors image_width image_height) image_width image_height
       score_threshold nms_threshold top_k loc conf iou"

text \<open>What iteration \<open>i\<close> of the outer loop of generatePriors contributes.\<close>

definition level_priors :: "int \<Rightarrow> int \<Rightarrow> nat \<Rightarrow> Rect2f list" where
  "level_priors img_w img_h i =
     priors_loop_h img_w img_h (feature_map_sizes img_w img_h ! i) (min_sizes ! i) (steps ! i) 0 []"

subsection \<open>Notions of the specification\<close>

text \<open>The clamp of the specification's score formula.\<close>

definition clamp :: "real \<Rightarrow> real \<Rightarrow> real \<Rightarrow> real" where
  "clamp v lo hi = max lo (min hi v)"

text \<open>
  The three tensors hold at least \<open>n\<close> rows: 14 values per row of \<open>loc\<close>, 2 per row of
  \<open>conf\<close>, 1 per row of \<open>iou\<close>.
\<close>

definition tensors_cover :: "nat \<Rightarrow> real list \<Rightarrow> real list \<Rightarrow> real list \<Rightarrow> bool" where
  "tensors_cover n loc conf iou \<longleftrightarrow> 14 * n \<le> length loc \<and> 2 * n \<le> length conf \<and> n \<le> length iou"

text \<open>
  The box of a detection row as the detector returns it, untruncated, and the IoU of two
  such boxes: area of intersection divided by area of union.
\<close>

definition faceBox_float :: "real list \<Rightarrow> Rect2f" where
  "faceBox_float face = \<lparr>rect_x = face ! 0, rect_y = face ! 1,
                         rect_width = face ! 2, rect_height = face ! 3\<rparr>"

definition IoU_float :: "Rect2f \<Rightarrow> Rect2f \<Rightarrow> real" where
  "IoU_float a b = ratio (intersection_area a b) (rect_area a + rect_area b - intersection_area a b)"

text \<open>
  The ranking of the specification: descending score, equal scores in the order of the
  anchor indices.
\<close>

definition score_order :: "real list \<Rightarrow> nat \<Rightarrow> nat \<Rightarrow> bool" where
  "score_order scores i j \<longleftrightarrow> scores ! i > scores ! j \<or> (scores ! i = scores ! j \<and> i < j)"

declare priors_loop_j.simps [simp del] priors_loop_w.simps [simp del]
  priors_loop_h.simps [simp del] priors_loop_i.simps [simp del] decode_loop.simps [simp del]


section \<open>Properties\<close>

lemma priors_loop_j_eq:
  "priors_loop_j img_w img_h min_size step h' w' j priors =
     priors @ map (make_prior img_w img_h step h' w') (drop j min_size)"
proof (induction img_w img_h min_size step h' w' j priors rule: priors_loop_j.induct)
  case (1 img_w img_h min_size step h' w' j priors)
  show ?case
  proof (cases "j < length min_size")
    case True
    have "drop j min_size = min_size ! j # drop (Suc j) min_size"
      using True by (simp add: Cons_nth_drop_Suc)
    with True "1" show ?thesis
      by (subst priors_loop_j.simps) simp
  next
    case False
    then show ?thesis by (subst priors_loop_j.simps) simp
  qed
qed

lemma priors_loop_w_eq:
  "priors_loop_w img_w img_h fm min_size step h' w' priors =
     priors @ concat (map (\<lambda>c. map (make_prior img_w img_h step h' c) min_size) [w' .. width fm - 1])"
proof (induction img_w img_h fm min_size step h' w' priors rule: priors_loop_w.induct)
  case (1 img_w img_h fm min_size step h' w' priors)
  show ?case
  proof (cases "w' < width fm")
    case True
    have "[w' .. width fm - 1] = w' # [w' + 1 .. width fm - 1]"
      using True by (simp add: upto_rec1)
    with True "1" show ?thesis
      by (subst priors_loop_w.simps) (simp add: priors_loop_j_eq)
  next
    case False
    then show ?thesis by (subst priors_loop_w.simps) simp
  qed
qed

lemma priors_loop_h_eq:
  "priors_loop_h img_w img_h fm min_size step h' priors =
     priors @ concat (map (\<lambda>r. concat (map (\<lambda>c. map (make_prior img_w img_h step r c) min_size)
        [0 .. width fm - 1])) [h' .. height fm - 1])"
proof (induction img_w img_h fm min_size step h' priors rule: priors_loop_h.induct)
  case (1 img_w img_h fm min_size step h' priors)
  show ?case
  proof (cases "h' < height fm")
    case True
    have "[h' .. height fm - 1] = h' # [h' + 1 .. height fm - 1]"
      using True by (simp add: upto_rec1)
    with True "1" show ?thesis
      by (subst priors_loop_h.simps) (simp add: priors_loop_w_eq)
  next
    case False
    then show ?thesis by (subst priors_loop_h.simps) simp
  qed
qed

lemma make_prior_fun:
  "make_prior img_w img_h step r c = (\<lambda>s.
     \<lparr>rect_x = (real_of_int c + 0.5) * real_of_int step / real_of_int img_w,
      rect_y = (real_of_int r + 0.5) * real_of_int step / real_of_int img_h,
      rect_width = s / real_of_int img_w,
      rect_height = s / real_of_int img_h\<rparr>)"
  by (rule ext) (simp add: make_prior_def)

lemma priors_loop_h_spec:
  "priors_loop_h img_w img_h fm min_size step 0 priors =
     priors @ level_priors_spec img_w img_h fm step min_size"
  unfolding priors_loop_h_eq level_priors_spec_def make_prior_fun ..

lemma priors_loop_i_4: "priors_loop_i img_w img_h (Suc (Suc (Suc (Suc 0)))) priors = priors"
  by (subst priors_loop_i.simps) (simp add: feature_map_sizes_def)

lemma priors_loop_i_3:
  "priors_loop_i img_w img_h (Suc (Suc (Suc 0))) priors =
     priors_loop_h img_w img_h (feature_map_6th img_w img_h) [128, 192, 256] 64 0 priors"
  by (subst priors_loop_i.simps)
     (simp add: feature_map_sizes_def min_sizes_def steps_def priors_loop_i_4)

lemma priors_loop_i_2:
  "priors_loop_i img_w img_h (Suc (Suc 0)) priors =
     priors_loop_i img_w img_h (Suc (Suc (Suc 0)))
       (priors_loop_h img_w img_h (feature_map_5th img_w img_h) [64, 96] 32 0 priors)"
  by (subst priors_loop_i.simps)
     (simp add: feature_map_sizes_def min_sizes_def steps_def)

lemma priors_loop_i_1:
  "priors_loop_i img_w img_h (Suc 0) priors =
     priors_loop_i img_w img_h (Suc (Suc 0))
       (priors_loop_h img_w img_h (feature_map_4th img_w img_h) [32, 48] 16 0 priors)"
  by (subst priors_loop_i.simps)
     (simp add: feature_map_sizes_def min_sizes_def steps_def)

lemma priors_loop_i_0:
  "priors_loop_i img_w img_h 0 priors =
     priors_loop_i img_w img_h (Suc 0)
       (priors_loop_h img_w img_h (feature_map_3rd img_w img_h) [10, 16, 24] 8 0 priors)"
  by (subst priors_loop_i.simps)
     (simp add: feature_map_sizes_def min_sizes_def steps_def)

lemma generatePriors_levels:
  "generatePriors img_w img_h =
     level_priors_spec img_w img_h (feature_map_3rd img_w img_h) 8 [10, 16, 24]
     @ level_priors_spec img_w img_h (feature_map_4th img_w img_h) 16 [32, 48]
     @ level_priors_spec img_w img_h (feature_map_5th img_w img_h) 32 [64, 96]
     @ level_priors_spec img_w img_h (feature_map_6th img_w img_h) 64 [128, 192, 256]"
  by (simp add: generatePriors_def priors_loop_i_0 priors_loop_i_1 priors_loop_i_2
      priors_loop_i_3 priors_loop_h_spec)


text \<open>
  C1. For every input resolution, in particular every positive one, generatePriors emits
  the priors in the specified order: the four levels in order with strides 8, 16, 32, 64 and
  size sets {10,16,24}, {32,48}, {64,96}, {128,192,256}; within a level row by row, within
  a row column by column, within a cell size by size, each prior being
  ((_w + 0.5) * stride / image_width, (_h + 0.5) * stride / image_height,
   s / image_width, s / image_height).
\<close>

theorem generatePriors_order:
  "generatePriors image_width image_height = priors_spec image_width image_height"
  by (simp add: generatePriors_levels priors_spec_def)


lemma length_level_priors_spec:
  "length (level_priors_spec img_w img_h fm stride sizes) =
     nat (height fm) * nat (width fm) * length sizes"
  by (simp add: level_priors_spec_def length_concat comp_def sum_list_triv)

lemma level_priors_eq: 
  "level_priors img_w img_h i =
     level_priors_spec img_w img_h (feature_map_sizes img_w img_h ! i) (steps ! i) (min_sizes ! i)"
  by (simp add: level_priors_def priors_loop_h_spec)

lemma sdiv2_nonneg: "0 \<le> k \<Longrightarrow> k sdiv 2 = k div (2::int)"
  by (simp add: signed_divide_int_def sgn_if)

lemma sdiv2_nonpos: "k \<le> 0 \<Longrightarrow> k sdiv 2 \<le> (0::int)"
  by (simp add: signed_divide_int_def sgn_if)

lemma generatePriors_length:
  "length (generatePriors img_w img_h) =
     3 * (nat (height (feature_map_3rd img_w img_h)) * nat (width (feature_map_3rd img_w img_h)))
     + 2 * (nat (height (feature_map_4th img_w img_h)) * nat (width (feature_map_4th img_w img_h)))
     + 2 * (nat (height (feature_map_5th img_w img_h)) * nat (width (feature_map_5th img_w img_h)))
     + 3 * (nat (height (feature_map_6th img_w img_h)) * nat (width (feature_map_6th img_w img_h)))"
  by (simp add: generatePriors_levels length_level_priors_spec)

lemma generatePriors_length_not_1: "length (generatePriors img_w img_h) \<noteq> Suc 0"
  unfolding generatePriors_length by presburger

lemma level_empty:
  "width fm \<le> 0 \<or> height fm \<le> 0 \<Longrightarrow> level_priors_spec img_w img_h fm stride sizes = []"
  using length_level_priors_spec [of img_w img_h fm stride sizes] by auto

lemma generatePriors_empty:
  assumes "width (feature_map_2nd img_w img_h) \<le> 0 \<or> height (feature_map_2nd img_w img_h) \<le> 0"
  shows "generatePriors img_w img_h = []"
proof -
  have 3: "width (feature_map_3rd img_w img_h) \<le> 0 \<or> height (feature_map_3rd img_w img_h) \<le> 0"
    using assms by (auto simp: feature_map_3rd_def sdiv2_nonpos)
  then have 4: "width (feature_map_4th img_w img_h) \<le> 0 \<or> height (feature_map_4th img_w img_h) \<le> 0"
    by (auto simp: feature_map_4th_def sdiv2_nonpos)
  then have 5: "width (feature_map_5th img_w img_h) \<le> 0 \<or> height (feature_map_5th img_w img_h) \<le> 0"
    by (auto simp: feature_map_5th_def sdiv2_nonpos)
  then have 6: "width (feature_map_6th img_w img_h) \<le> 0 \<or> height (feature_map_6th img_w img_h) \<le> 0"
    by (auto simp: feature_map_6th_def sdiv2_nonpos)
  show ?thesis
    by (simp add: generatePriors_levels level_empty [OF 3] level_empty [OF 4]
        level_empty [OF 5] level_empty [OF 6])
qed

lemma wrap32_id: "- 2147483648 \<le> k \<Longrightarrow> k < 2147483648 \<Longrightarrow> wrap32 k = k"
  by (simp add: wrap32_def)

lemma feature_map_2nd_nonpos:
  assumes "- 2147483648 \<le> k" "k \<le> 0"
  shows "(wrap32 (k + 1) sdiv 2) sdiv 2 \<le> 0"
proof -
  have "wrap32 (k + 1) = k + 1" using assms by (simp add: wrap32_id)
  moreover have "(k + 1) sdiv 2 \<le> 0"
  proof (cases "k = 0")
    case True
    then show ?thesis by (simp add: signed_divide_int_def)
  next
    case False
    with assms have "k + 1 \<le> 0" by simp
    then show ?thesis by (rule sdiv2_nonpos)
  qed
  ultimately show ?thesis by (simp add: sdiv2_nonpos)
qed

lemma generatePriors_nonpositive:
  assumes "- 2147483648 \<le> img_w" "- 2147483648 \<le> img_h" "img_w \<le> 0 \<or> img_h \<le> 0"
  shows "generatePriors img_w img_h = []"
proof (rule generatePriors_empty)
  show "width (feature_map_2nd img_w img_h) \<le> 0 \<or> height (feature_map_2nd img_w img_h) \<le> 0"
    using assms feature_map_2nd_nonpos [of img_w] feature_map_2nd_nonpos [of img_h]
    by (auto simp: feature_map_2nd_def)
qed

lemma feature_maps_320_240:
  "feature_map_2nd 320 240 = \<lparr>width = 80, height = 60\<rparr>"
  "feature_map_3rd 320 240 = \<lparr>width = 40, height = 30\<rparr>"
  "feature_map_4th 320 240 = \<lparr>width = 20, height = 15\<rparr>"
  "feature_map_5th 320 240 = \<lparr>width = 10, height = 7\<rparr>"
  "feature_map_6th 320 240 = \<lparr>width = 5, height = 3\<rparr>"
  by (simp_all add: feature_map_2nd_def feature_map_3rd_def feature_map_4th_def
      feature_map_5th_def feature_map_6th_def wrap32_def signed_divide_int_def)

lemma feature_maps_7_7:
  "feature_map_3rd 7 7 = \<lparr>width = 1, height = 1\<rparr>"
  "feature_map_4th 7 7 = \<lparr>width = 0, height = 0\<rparr>"
  "feature_map_5th 7 7 = \<lparr>width = 0, height = 0\<rparr>"
  "feature_map_6th 7 7 = \<lparr>width = 0, height = 0\<rparr>"
  by (simp_all add: feature_map_2nd_def feature_map_3rd_def feature_map_4th_def
      feature_map_5th_def feature_map_6th_def wrap32_def signed_divide_int_def)

lemma generatePriors_7_7:
  "generatePriors 7 7 =
     [\<lparr>rect_x = 4 / 7, rect_y = 4 / 7, rect_width = 10 / 7, rect_height = 10 / 7\<rparr>,
      \<lparr>rect_x = 4 / 7, rect_y = 4 / 7, rect_width = 16 / 7, rect_height = 16 / 7\<rparr>,
      \<lparr>rect_x = 4 / 7, rect_y = 4 / 7, rect_width = 24 / 7, rect_height = 24 / 7\<rparr>]"
  by (simp add: generatePriors_levels feature_maps_7_7 level_priors_spec_def)

text \<open>
  C2 as stated fails: at 320 x 240 the stride-8 level (the first entry of
  feature_map_sizes) is not 80 x 60 and does not contribute 14400 priors.
\<close>

theorem stride8_level_320_240_counterexample:
  "\<not> (feature_map_sizes 320 240 ! 0 = \<lparr>width = 80, height = 60\<rparr>
      \<and> steps ! 0 = 8
      \<and> length (level_priors 320 240 0) = 14400)"
  by (simp add: feature_map_sizes_def feature_maps_320_240)

text \<open>
  C2, amended. At 320 x 240 the stride-8 level has feature-map size 40 x 30 and contributes
  40 * 30 * 3 = 3600 priors. The sizes come from six successive halvings, the first
  rounding up and the others truncating: the second halving gives feature map 2 (80 x 60),
  which is not a detection level, and halvings three to six give the detection levels
  40 x 30, 20 x 15, 10 x 7 and 5 x 3; the detector has 4385 priors.
\<close>

theorem stride8_level_320_240:
  "feature_map_2nd 320 240 = \<lparr>width = ((320 + 1) div 2) div 2, height = ((240 + 1) div 2) div 2\<rparr>
   \<and> feature_map_2nd 320 240 = \<lparr>width = 80, height = 60\<rparr>
   \<and> feature_map_sizes 320 240 =
       [\<lparr>width = 40, height = 30\<rparr>, \<lparr>width = 20, height = 15\<rparr>,
        \<lparr>width = 10, height = 7\<rparr>, \<lparr>width = 5, height = 3\<rparr>]
   \<and> steps ! 0 = 8
   \<and> length (level_priors 320 240 0) = 40 * 30 * 3
   \<and> length (level_priors 320 240 0) = 3600
   \<and> length (generatePriors 320 240) = 4385"
  by (simp add: feature_map_sizes_def feature_maps_320_240 level_priors_eq steps_def min_sizes_def
      length_level_priors_spec generatePriors_length)

lemma rd_Some: "k < length v \<Longrightarrow> rd v k = Some (v ! k)"
  by (simp add: rd_def)

lemma decode_face_Some:
  assumes "i * 14 + 13 < length loc_v" "i * 2 + 1 < length conf_v" "i < length iou_v"
  shows "decode_face priors img_w img_h loc_v conf_v iou_v i = Some
    [(rect_x (priors ! i) + loc_v ! (i * 14) * 0.1 * rect_width (priors ! i)) * real_of_int img_w
       - rect_width (priors ! i) * exp (loc_v ! (i * 14 + 2) * 0.1) * real_of_int img_w / 2,
     (rect_y (priors ! i) + loc_v ! (i * 14 + 1) * 0.1 * rect_height (priors ! i)) * real_of_int img_h
       - rect_height (priors ! i) * exp (loc_v ! (i * 14 + 3) * 0.2) * real_of_int img_h / 2,
     rect_width (priors ! i) * exp (loc_v ! (i * 14 + 2) * 0.1) * real_of_int img_w,
     rect_height (priors ! i) * exp (loc_v ! (i * 14 + 3) * 0.2) * real_of_int img_h,
     (rect_x (priors ! i) + loc_v ! (i * 14 + 4) * 0.1 * rect_width (priors ! i)) * real_of_int img_w,
     (rect_y (priors ! i) + loc_v ! (i * 14 + 5) * 0.1 * rect_height (priors ! i)) * real_of_int img_h,
     (rect_x (priors ! i) + loc_v ! (i * 14 + 6) * 0.1 * rect_width (priors ! i)) * real_of_int img_w,
     (rect_y (priors ! i) + loc_v ! (i * 14 + 7) * 0.1 * rect_height (priors ! i)) * real_of_int img_h,
     (rect_x (priors ! i) + loc_v ! (i * 14 + 8) * 0.1 * rect_width (priors ! i)) * real_of_int img_w,
     (rect_y (priors ! i) + loc_v ! (i * 14 + 9) * 0.1 * rect_height (priors ! i)) * real_of_int img_h,
     (rect_x (priors ! i) + loc_v ! (i * 14 + 10) * 0.1 * rect_width (priors ! i)) * real_of_int img_w,
     (rect_y (priors ! i) + loc_v ! (i * 14 + 11) * 0.1 * rect_height (priors ! i)) * real_of_int img_h,
     (rect_x (priors ! i) + loc_v ! (i * 14 + 12) * 0.1 * rect_width (priors ! i)) * real_of_int img_w,
     (rect_y (priors ! i) + loc_v ! (i * 14 + 13) * 0.1 * rect_height (priors ! i)) * real_of_int img_h,
     sqrt (conf_v ! (i * 2 + 1) *
           (if iou_v ! i < 0 then 0 else if iou_v ! i > 1 then 1 else iou_v ! i))]"
  using assms by (simp add: decode_face_def rd_Some variance_def Let_def)


lemma decode_face_defined:
  assumes "tensors_cover n loc conf iou" "i < n"
  shows "decode_face priors img_w img_h loc conf iou i \<noteq> None"
proof -
  from assms have "i * 14 + 13 < length loc" "i * 2 + 1 < length conf" "i < length iou"
    by (simp_all add: tensors_cover_def)
  then show ?thesis by (simp add: decode_face_Some)
qed

lemma decode_loop_eq:
  assumes "tensors_cover (length priors) loc conf iou"
  shows "decode_loop priors img_w img_h loc conf iou i faces =
     Some (faces @ map (\<lambda>k. the (decode_face priors img_w img_h loc conf iou k)) [i ..< length priors])"
  using assms
proof (induction priors img_w img_h loc conf iou i faces rule: decode_loop.induct)
  case (1 priors img_w img_h loc_v conf_v iou_v i faces)
  show ?case
  proof (cases "i < length priors")
    case True
    then obtain face where f: "decode_face priors img_w img_h loc_v conf_v iou_v i = Some face"
      using decode_face_defined [OF "1.prems" True] by blast
    have "[i ..< length priors] = i # [i + 1 ..< length priors]"
      using True by (simp add: upt_conv_Cons)
    with True f "1.IH" [OF True f "1.prems"] show ?thesis
      by (subst decode_loop.simps) simp
  next
    case False
    then show ?thesis by (subst decode_loop.simps) simp
  qed
qed

lemma decode_loop_faces:
  assumes "tensors_cover (length priors) loc conf iou"
  shows "\<exists>faces. decode_loop priors img_w img_h loc conf iou 0 [] = Some faces
           \<and> length faces = length priors
           \<and> (\<forall>i<length priors. decode_face priors img_w img_h loc conf iou i = Some (faces ! i))"
proof -
  let ?faces = "map (\<lambda>k. the (decode_face priors img_w img_h loc conf iou k)) [0 ..< length priors]"
  have "decode_loop priors img_w img_h loc conf iou 0 [] = Some ?faces"
    using decode_loop_eq [OF assms, of img_w img_h 0 "[]"] by simp
  moreover have "length ?faces = length priors" by simp
  moreover have "\<forall>i<length priors. decode_face priors img_w img_h loc conf iou i = Some (?faces ! i)"
    using decode_face_defined [OF assms] by auto
  ultimately show ?thesis by blast
qed

lemma clamp_if: "clamp v 0 1 = (if v < 0 then 0 else if v > 1 then 1 else v)"
  by (simp add: clamp_def)

text \<open>
  C3. For every anchor i the decoder's score, entry 14 of row i, is
  sqrt (face_conf[i] * clamp (iou[i], 0, 1)), the clamp applied before the product.
\<close>

theorem decode_fused_score:
  assumes "tensors_cover (length priors) loc conf iou" and "i < length priors"
  shows "\<exists>faces. decode_loop priors image_width image_height loc conf iou 0 [] = Some faces
           \<and> length faces = length priors
           \<and> faces ! i ! 14 = sqrt (conf ! (2 * i + 1) * clamp (iou ! i) 0 1)"
proof -
  obtain faces where f: "decode_loop priors image_width image_height loc conf iou 0 [] = Some faces"
      "length faces = length priors"
      "decode_face priors image_width image_height loc conf iou i = Some (faces ! i)"
    using decode_loop_faces [OF assms(1)] assms(2) by blast
  from assms have "i * 14 + 13 < length loc" "i * 2 + 1 < length conf" "i < length iou"
    by (simp_all add: tensors_cover_def)
  from decode_face_Some [OF this, of priors image_width image_height] f(3)
  have "faces ! i ! 14 = sqrt (conf ! (i * 2 + 1) * clamp (iou ! i) 0 1)"
    by (simp add: clamp_if)
  with f(1,2) show ?thesis by (simp add: mult.commute)
qed

theorem decode_fused_score_witness:
  "tensors_cover (length [\<lparr>rect_x = 1/2, rect_y = 1/2, rect_width = 1, rect_height = 1::real\<rparr>])
      (replicate 14 0) [0, 1] [4]
   \<and> (\<exists>faces. decode_loop [\<lparr>rect_x = 1/2, rect_y = 1/2, rect_width = 1, rect_height = 1\<rparr>] 8 8
                 (replicate 14 0) [0, 1] [4] 0 [] = Some faces
        \<and> length faces = 1 \<and> faces ! 0 ! 14 = 1)"
  using decode_fused_score [of "[\<lparr>rect_x = 1/2, rect_y = 1/2, rect_width = 1, rect_height = 1\<rparr>]"
      "replicate 14 0" "[0, 1]" "[4]" 0 8 8]
  by (simp add: tensors_cover_def clamp_def)

text \<open>
  C8. For valid inputs, that is face scores in [0, 1], the fused score of every decoded
  candidate lies in [0, 1].
\<close>

theorem decode_score_bounds:
  assumes "tensors_cover (length priors) loc conf iou"
    and "\<forall>i<length priors. 0 \<le> conf ! (2 * i + 1) \<and> conf ! (2 * i + 1) \<le> 1"
  shows "\<exists>faces. decode_loop priors image_width image_height loc conf iou 0 [] = Some faces
           \<and> length faces = length priors
           \<and> (\<forall>i<length faces. 0 \<le> faces ! i ! 14 \<and> faces ! i ! 14 \<le> 1)"
proof -
  obtain faces where f: "decode_loop priors image_width image_height loc conf iou 0 [] = Some faces"
      "length faces = length priors"
      "\<forall>i<length priors. decode_face priors image_width image_height loc conf iou i = Some (faces ! i)"
    using decode_loop_faces [OF assms(1)] by blast
  have "0 \<le> faces ! i ! 14 \<and> faces ! i ! 14 \<le> 1" if i: "i < length priors" for i
  proof -
    from assms(1) i have "i * 14 + 13 < length loc" "i * 2 + 1 < length conf" "i < length iou"
      by (simp_all add: tensors_cover_def)
    from decode_face_Some [OF this, of priors image_width image_height] f(3) i
    have s: "faces ! i ! 14 = sqrt (conf ! (2 * i + 1) * clamp (iou ! i) 0 1)"
      by (simp add: clamp_if mult.commute)
    have c: "0 \<le> conf ! (2 * i + 1)" "conf ! (2 * i + 1) \<le> 1"
      using assms(2) i by simp_all
    have k: "0 \<le> clamp (iou ! i) 0 1" "clamp (iou ! i) 0 1 \<le> 1"
      by (simp_all add: clamp_def)
    have "0 \<le> conf ! (2 * i + 1) * clamp (iou ! i) 0 1"
      using c(1) k(1) by simp
    moreover have "conf ! (2 * i + 1) * clamp (iou ! i) 0 1 \<le> 1"
      using c k by (simp add: mult_le_one)
    ultimately show ?thesis unfolding s by simp
  qed
  with f(1,2) show ?thesis by simp
qed

theorem decode_score_bounds_witness:
  "\<exists>faces. decode_loop [\<lparr>rect_x = 1/2, rect_y = 1/2, rect_width = 1, rect_height = 1\<rparr>] 8 8
                 (replicate 14 0) [0, 1] [4] 0 [] = Some faces
        \<and> length faces = 1 \<and> (\<forall>i<length faces. 0 \<le> faces ! i ! 14 \<and> faces ! i ! 14 \<le> 1)"
  using decode_score_bounds [of "[\<lparr>rect_x = 1/2, rect_y = 1/2, rect_width = 1, rect_height = 1\<rparr>]"
      "replicate 14 0" "[0, 1]" "[4]" 8 8]
  by (simp add: tensors_cover_def)


text \<open>
  C4. For every anchor i the decoded row holds the box
  x = cx_px - w_px / 2, y = cy_px - h_px / 2, w_px, h_px with
  cx_px = (prior.cx + dx * 0.1 * prior.base_w) * image_width,
  cy_px = (prior.cy + dy * 0.1 * prior.base_h) * image_height,
  w_px = prior.base_w * exp (dw * 0.1) * image_width,
  h_px = prior.base_h * exp (dh * 0.2) * image_height,
  and each of the five landmark points k as
  ((prior.cx + lx_k * 0.1 * prior.base_w) * image_width,
   (prior.cy + ly_k * 0.1 * prior.base_h) * image_height),
  where dx, dy, dw, dh, lx_0, ly_0, ..., lx_4, ly_4 are the 14 values of row i of loc.
\<close>

theorem decode_box_landmarks:
  assumes "tensors_cover (length priors) loc conf iou" and "i < length priors"
  shows "\<exists>faces. decode_loop priors image_width image_height loc conf iou 0 [] = Some faces
     \<and> length faces = length priors
     \<and> (let prior = priors ! i;
             dx = loc ! (14 * i); dy = loc ! (14 * i + 1);
             dw = loc ! (14 * i + 2); dh = loc ! (14 * i + 3);
             cx_px = (rect_x prior + dx * 0.1 * rect_width prior) * real_of_int image_width;
             cy_px = (rect_y prior + dy * 0.1 * rect_height prior) * real_of_int image_height;
             w_px = rect_width prior * exp (dw * 0.1) * real_of_int image_width;
             h_px = rect_height prior * exp (dh * 0.2) * real_of_int image_height
         in faces ! i ! 0 = cx_px - w_px / 2
          \<and> faces ! i ! 1 = cy_px - h_px / 2
          \<and> faces ! i ! 2 = w_px
          \<and> faces ! i ! 3 = h_px
          \<and> (\<forall>k<5. faces ! i ! (4 + 2 * k) =
                 (rect_x prior + loc ! (14 * i + 4 + 2 * k) * 0.1 * rect_width prior)
                   * real_of_int image_width
               \<and> faces ! i ! (5 + 2 * k) =
                 (rect_y prior + loc ! (14 * i + 5 + 2 * k) * 0.1 * rect_height prior)
                   * real_of_int image_height))"
proof -
  obtain faces where f: "decode_loop priors image_width image_height loc conf iou 0 [] = Some faces"
      "length faces = length priors"
      "decode_face priors image_width image_height loc conf iou i = Some (faces ! i)"
    using decode_loop_faces [OF assms(1)] assms(2) by blast
  from assms have "i * 14 + 13 < length loc" "i * 2 + 1 < length conf" "i < length iou"
    by (simp_all add: tensors_cover_def)
  from decode_face_Some [OF this, of priors image_width image_height] f(3)
  obtain a0 a1 a2 a3 a4 a5 a6 a7 a8 a9 a10 a11 a12 a13 a14 where
    row: "faces ! i = [a0, a1, a2, a3, a4, a5, a6, a7, a8, a9, a10, a11, a12, a13, a14]"
    and v: "a0 = (rect_x (priors ! i) + loc ! (i * 14) * 0.1 * rect_width (priors ! i)) * real_of_int image_width
       - rect_width (priors ! i) * exp (loc ! (i * 14 + 2) * 0.1) * real_of_int image_width / 2"
     "a1 = (rect_y (priors ! i) + loc ! (i * 14 + 1) * 0.1 * rect_height (priors ! i)) * real_of_int image_height
       - rect_height (priors ! i) * exp (loc ! (i * 14 + 3) * 0.2) * real_of_int image_height / 2"
     "a2 = rect_width (priors ! i) * exp (loc ! (i * 14 + 2) * 0.1) * real_of_int image_width"
     "a3 = rect_height (priors ! i) * exp (loc ! (i * 14 + 3) * 0.2) * real_of_int image_height"
     "a4 = (rect_x (priors ! i) + loc ! (i * 14 + 4) * 0.1 * rect_width (priors ! i)) * real_of_int image_width"
     "a5 = (rect_y (priors ! i) + loc ! (i * 14 + 5) * 0.1 * rect_height (priors ! i)) * real_of_int image_height"
     "a6 = (rect_x (priors ! i) + loc ! (i * 14 + 6) * 0.1 * rect_width (priors ! i)) * real_of_int image_width"
     "a7 = (rect_y (priors ! i) + loc ! (i * 14 + 7) * 0.1 * rect_height (priors ! i)) * real_of_int image_height"
     "a8 = (rect_x (priors ! i) + loc ! (i * 14 + 8) * 0.1 * rect_width (priors ! i)) * real_of_int image_width"
     "a9 = (rect_y (priors ! i) + loc ! (i * 14 + 9) * 0.1 * rect_height (priors ! i)) * real_of_int image_height"
     "a10 = (rect_x (priors ! i) + loc ! (i * 14 + 10) * 0.1 * rect_width (priors ! i)) * real_of_int image_width"
     "a11 = (rect_y (priors ! i) + loc ! (i * 14 + 11) * 0.1 * rect_height (priors ! i)) * real_of_int image_height"
     "a12 = (rect_x (priors ! i) + loc ! (i * 14 + 12) * 0.1 * rect_width (priors ! i)) * real_of_int image_width"
     "a13 = (rect_y (priors ! i) + loc ! (i * 14 + 13) * 0.1 * rect_height (priors ! i)) * real_of_int image_height"
    by simp
  have k5: "k < 5 \<longleftrightarrow> k = 0 \<or> k = 1 \<or> k = 2 \<or> k = 3 \<or> k = 4" for k :: nat
    by auto
  have comm: "14 * i = i * 14" by simp
  have idx: "i * 14 + 4 + 2 * 0 = i * 14 + 4" "i * 14 + 5 + 2 * 0 = i * 14 + 5"
    "i * 14 + 4 + 2 * 1 = i * 14 + 6" "i * 14 + 5 + 2 * 1 = i * 14 + 7"
    "i * 14 + 4 + 2 * 2 = i * 14 + 8" "i * 14 + 5 + 2 * 2 = i * 14 + 9"
    "i * 14 + 4 + 2 * 3 = i * 14 + 10" "i * 14 + 5 + 2 * 3 = i * 14 + 11"
    "i * 14 + 4 + 2 * 4 = i * 14 + 12" "i * 14 + 5 + 2 * 4 = i * 14 + 13"
    by simp_all
  have pos: "4 + 2 * 0 = (4::nat)" "5 + 2 * 0 = (5::nat)" "4 + 2 * 1 = (6::nat)" "5 + 2 * 1 = (7::nat)"
    "4 + 2 * 2 = (8::nat)" "5 + 2 * 2 = (9::nat)" "4 + 2 * 3 = (10::nat)" "5 + 2 * 3 = (11::nat)"
    "4 + 2 * 4 = (12::nat)" "5 + 2 * 4 = (13::nat)"
    by simp_all
  have box: "faces ! i ! 0 = a0" "faces ! i ! 1 = a1" "faces ! i ! 2 = a2" "faces ! i ! 3 = a3"
    by (simp_all add: row)
  have lms: "faces ! i ! 4 = a4" "faces ! i ! 5 = a5" "faces ! i ! 6 = a6" "faces ! i ! 7 = a7"
    "faces ! i ! 8 = a8" "faces ! i ! 9 = a9" "faces ! i ! 10 = a10" "faces ! i ! 11 = a11"
    "faces ! i ! 12 = a12" "faces ! i ! 13 = a13"
    by (simp_all add: row)
  have lm: "faces ! i ! (4 + 2 * k) =
        (rect_x (priors ! i) + loc ! (i * 14 + 4 + 2 * k) * 0.1 * rect_width (priors ! i))
          * real_of_int image_width
      \<and> faces ! i ! (5 + 2 * k) =
        (rect_y (priors ! i) + loc ! (i * 14 + 5 + 2 * k) * 0.1 * rect_height (priors ! i))
          * real_of_int image_height" if "k < 5" for k
  proof -
    from that consider "k = 0" | "k = 1" | "k = 2" | "k = 3" | "k = 4"
      unfolding k5 by blast
    then show ?thesis
    proof cases
      case 1 show ?thesis unfolding 1 idx pos lms v by (rule conjI) (rule refl)+
    next
      case 2 show ?thesis unfolding 2 idx pos lms v by (rule conjI) (rule refl)+
    next
      case 3 show ?thesis unfolding 3 idx pos lms v by (rule conjI) (rule refl)+
    next
      case 4 show ?thesis unfolding 4 idx pos lms v by (rule conjI) (rule refl)+
    next
      case 5 show ?thesis unfolding 5 idx pos lms v by (rule conjI) (rule refl)+
    qed
  qed
  have b: "faces ! i ! 0 = (rect_x (priors ! i) + loc ! (i * 14) * 0.1 * rect_width (priors ! i)) * real_of_int image_width
       - rect_width (priors ! i) * exp (loc ! (i * 14 + 2) * 0.1) * real_of_int image_width / 2"
    "faces ! i ! 1 = (rect_y (priors ! i) + loc ! (i * 14 + 1) * 0.1 * rect_height (priors ! i)) * real_of_int image_height
       - rect_height (priors ! i) * exp (loc ! (i * 14 + 3) * 0.2) * real_of_int image_height / 2"
    "faces ! i ! 2 = rect_width (priors ! i) * exp (loc ! (i * 14 + 2) * 0.1) * real_of_int image_width"
    "faces ! i ! 3 = rect_height (priors ! i) * exp (loc ! (i * 14 + 3) * 0.2) * real_of_int image_height"
    unfolding box v by (rule refl)+
  show ?thesis
    unfolding Let_def comm
    using f(1,2) b lm by blast
qed

theorem decode_box_landmarks_witness:
  "\<exists>faces. decode_loop [\<lparr>rect_x = 1/2, rect_y = 1/2, rect_width = 1, rect_height = 1\<rparr>] 8 8
                 (replicate 14 0) [0, 1] [4] 0 [] = Some faces
        \<and> length faces = 1
        \<and> faces ! 0 ! 0 = 0 \<and> faces ! 0 ! 1 = 0 \<and> faces ! 0 ! 2 = 8 \<and> faces ! 0 ! 3 = 8
        \<and> (\<forall>k<5. faces ! 0 ! (4 + 2 * k) = 4 \<and> faces ! 0 ! (5 + 2 * k) = 4)"
  using decode_box_landmarks [of "[\<lparr>rect_x = 1/2, rect_y = 1/2, rect_width = 1, rect_height = 1\<rparr>]"
      "replicate 14 0" "[0, 1]" "[4]" 0 8 8]
  by (simp add: tensors_cover_def Let_def)

subsection \<open>Suppression\<close>

lemma set_greedy_nms: "set (greedy_nms bboxes t xs) \<subseteq> set xs"
proof (induction bboxes t xs rule: greedy_nms.induct)
  case (1 bboxes t)
  then show ?case by simp
next
  case (2 bboxes t i rest)
  then show ?case by auto
qed

lemma sorted_wrt_greedy_nms:
  "sorted_wrt R xs \<Longrightarrow> sorted_wrt R (greedy_nms bboxes t xs)"
proof (induction bboxes t xs rule: greedy_nms.induct)
  case (1 bboxes t)
  then show ?case by simp
next
  case (2 bboxes t i rest)
  let ?rest = "filter (\<lambda>j. \<not> IoU (bboxes ! i) (bboxes ! j) > t) rest"
  from "2.prems" have "sorted_wrt R ?rest"
    by (simp add: sorted_wrt_filter)
  then have "sorted_wrt R (greedy_nms bboxes t ?rest)"
    by (rule "2.IH")
  moreover have "\<forall>j\<in>set (greedy_nms bboxes t ?rest). R i j"
    using set_greedy_nms [of bboxes t ?rest] "2.prems" by auto
  ultimately show ?case by simp
qed

lemma greedy_nms_overlap:
  "sorted_wrt (\<lambda>i j. IoU (bboxes ! i) (bboxes ! j) \<le> t) (greedy_nms bboxes t xs)"
proof (induction bboxes t xs rule: greedy_nms.induct)
  case (1 bboxes t)
  then show ?case by simp
next
  case (2 bboxes t i rest)
  let ?rest = "filter (\<lambda>j. \<not> IoU (bboxes ! i) (bboxes ! j) > t) rest"
  have "\<forall>j\<in>set (greedy_nms bboxes t ?rest). IoU (bboxes ! i) (bboxes ! j) \<le> t"
    using set_greedy_nms [of bboxes t ?rest] by auto
  with "2.IH" show ?case by simp
qed

lemma intersection_area_commute: "intersection_area a b = intersection_area b a"
  by (simp add: intersection_area_def min.commute max.commute)

lemma IoU_commute: "IoU a b = IoU b a"
  by (simp add: IoU_def intersection_area_commute [of a b] add.commute)

lemma sorted_wrt_insort_score:
  assumes "sorted_wrt (score_order scores) ys" and "\<forall>y\<in>set ys. x < y"
  shows "sorted_wrt (score_order scores) (insort_key (\<lambda>i. - (scores ! i)) x ys)"
  using assms
proof (induction ys)
  case Nil
  then show ?case by simp
next
  case (Cons y ys)
  show ?case
  proof (cases "scores ! y \<le> scores ! x")
    case True
    have "score_order scores x z" if "z \<in> set (y # ys)" for z
    proof (cases "z = y")
      case True
      with \<open>scores ! y \<le> scores ! x\<close> Cons.prems(2) show ?thesis
        by (auto simp: score_order_def)
    next
      case False
      with that have "z \<in> set ys" by simp
      with Cons.prems(1) have "score_order scores y z" by simp
      with \<open>scores ! y \<le> scores ! x\<close> Cons.prems(2) \<open>z \<in> set ys\<close> show ?thesis
        by (auto simp: score_order_def)
    qed
    with True Cons.prems(1) show ?thesis by simp
  next
    case False
    then have yx: "score_order scores y x" by (simp add: score_order_def)
    from Cons have "sorted_wrt (score_order scores) (insort_key (\<lambda>i. - (scores ! i)) x ys)"
      by simp
    moreover have "\<forall>z\<in>set (insort_key (\<lambda>i. - (scores ! i)) x ys). score_order scores y z"
      using yx Cons.prems(1) by (simp add: set_insort_key)
    ultimately show ?thesis using False by simp
  qed
qed

lemma sorted_wrt_sort_score:
  "sorted_wrt (<) xs \<Longrightarrow> sorted_wrt (score_order scores) (sort_key (\<lambda>i. - (scores ! i)) xs)"
proof (induction xs)
  case Nil
  then show ?case by simp
next
  case (Cons x xs)
  then show ?case by (simp add: sorted_wrt_insort_score)
qed

lemma sorted_eligible: "sorted_wrt (<) (eligible scores t)"
  by (simp add: eligible_def sorted_wrt_filter)

lemma set_eligible: "set (eligible scores t) = {i. i < length scores \<and> t \<le> scores ! i}"
  by (auto simp: eligible_def)

lemma set_retain_top_k: "set (retain_top_k k xs) \<subseteq> set xs"
  by (auto simp: retain_top_k_def dest: in_set_takeD)

lemma sorted_wrt_retain_top_k: "sorted_wrt R xs \<Longrightarrow> sorted_wrt R (retain_top_k k xs)"
  by (simp add: retain_top_k_def sorted_wrt_take)

lemma set_NMSBoxes:
  "set (NMSBoxes bboxes scores st nt eta k) \<subseteq> {i. i < length scores \<and> st \<le> scores ! i}"
proof -
  have "set (NMSBoxes bboxes scores st nt eta k)
      \<subseteq> set (retain_top_k k (sort_key (\<lambda>i. - (scores ! i)) (eligible scores st)))"
    unfolding NMSBoxes_def by (rule set_greedy_nms)
  also have "\<dots> \<subseteq> set (sort_key (\<lambda>i. - (scores ! i)) (eligible scores st))"
    by (rule set_retain_top_k)
  also have "\<dots> = {i. i < length scores \<and> st \<le> scores ! i}"
    by (simp add: set_eligible)
  finally show ?thesis .
qed

lemma NMSBoxes_order:
  "sorted_wrt (score_order scores) (NMSBoxes bboxes scores st nt eta k)"
  unfolding NMSBoxes_def
  by (intro sorted_wrt_greedy_nms sorted_wrt_retain_top_k sorted_wrt_sort_score sorted_eligible)

lemma NMSBoxes_overlap:
  "sorted_wrt (\<lambda>i j. IoU (bboxes ! i) (bboxes ! j) \<le> nt) (NMSBoxes bboxes scores st nt eta k)"
  unfolding NMSBoxes_def by (rule greedy_nms_overlap)

lemma nms_faces_loop_eq:
  "\<forall>idx\<in>set keepIdx. idx < length faces \<Longrightarrow>
     nms_faces_loop faces keepIdx nms_faces = Some (nms_faces @ map (\<lambda>idx. faces ! idx) keepIdx)"
  by (induction keepIdx arbitrary: nms_faces) simp_all

lemma postProcess_with_eq:
  assumes "decode_loop priors img_w img_h loc conf iou 0 [] = Some faces"
  shows "postProcess_with nms priors img_w img_h st nt topK loc conf iou =
     (if length faces > 1
      then nms_faces_loop faces (nms (map faceBox faces) (map faceScore faces) st nt 1 topK) []
      else Some faces)"
  using assms by (simp add: postProcess_with_def)

lemma postProcess_eq:
  assumes "tensors_cover (length priors) loc conf iou"
  shows "\<exists>faces. decode_loop priors img_w img_h loc conf iou 0 [] = Some faces
     \<and> length faces = length priors
     \<and> postProcess priors img_w img_h st nt topK loc conf iou =
        Some (if length faces > 1
              then map (\<lambda>idx. faces ! idx) (NMSBoxes (map faceBox faces) (map faceScore faces) st nt 1 topK)
              else faces)"
proof -
  obtain faces where f: "decode_loop priors img_w img_h loc conf iou 0 [] = Some faces"
      "length faces = length priors"
    using decode_loop_faces [OF assms] by blast
  have "\<forall>idx\<in>set (NMSBoxes (map faceBox faces) (map faceScore faces) st nt 1 topK). idx < length faces"
    using set_NMSBoxes [of "map faceBox faces" "map faceScore faces" st nt 1 topK] by auto
  then have "postProcess priors img_w img_h st nt topK loc conf iou =
        Some (if length faces > 1
              then map (\<lambda>idx. faces ! idx) (NMSBoxes (map faceBox faces) (map faceScore faces) st nt 1 topK)
              else faces)"
    by (simp add: postProcess_def postProcess_with_eq [OF f(1)] nms_faces_loop_eq)
  with f show ?thesis by blast
qed

lemma decode_7_7:
  "decode_loop (generatePriors 7 7) 7 7
     [7/4, 3/2, 0, 0, 0, 0, 0, 0, 0, 0, 0, 0, 0, 0,
      185/32, 45/16, 0, 0, 0, 0, 0, 0, 0, 0, 0, 0, 0, 0,
      0, 0, 0, 0, 0, 0, 0, 0, 0, 0, 0, 0, 0, 0]
     [0, 1, 0, 1, 1, 0] [1, 1, 1] 0 [] =
   Some [[3/4, 1/2, 10, 10, 4, 4, 4, 4, 4, 4, 4, 4, 4, 4, 1],
         [21/4, 1/2, 16, 16, 4, 4, 4, 4, 4, 4, 4, 4, 4, 4, 1],
         [-8, -8, 24, 24, 4, 4, 4, 4, 4, 4, 4, 4, 4, 4, 0]]"
proof -
  let ?loc = "[7/4, 3/2, 0, 0, 0, 0, 0, 0, 0, 0, 0, 0, 0, 0,
      185/32, 45/16, 0, 0, 0, 0, 0, 0, 0, 0, 0, 0, 0, 0,
      0, 0, 0, 0, 0, 0, 0, 0, 0, 0, 0, 0, 0, 0::real]"
  let ?conf = "[0, 1, 0, 1, 1, 0::real]"
  let ?iou = "[1, 1, 1::real]"
  have cover: "tensors_cover (length (generatePriors 7 7)) ?loc ?conf ?iou"
    by (simp add: generatePriors_7_7 tensors_cover_def)
  have len: "length (generatePriors 7 7) = 3"
    by (simp add: generatePriors_7_7)
  have upt3: "[0 ..< 3] = [0, Suc 0, 2::nat]"
    by (simp add: upt_rec)
  have r0: "decode_face (generatePriors 7 7) 7 7 ?loc ?conf ?iou 0
      = Some [3/4, 1/2, 10, 10, 4, 4, 4, 4, 4, 4, 4, 4, 4, 4, 1]"
    by (subst decode_face_Some) (simp_all add: generatePriors_7_7)
  have r1: "decode_face (generatePriors 7 7) 7 7 ?loc ?conf ?iou (Suc 0)
      = Some [21/4, 1/2, 16, 16, 4, 4, 4, 4, 4, 4, 4, 4, 4, 4, 1]"
    by (subst decode_face_Some) (simp_all add: generatePriors_7_7 numeral_eq_Suc)
  have r2: "decode_face (generatePriors 7 7) 7 7 ?loc ?conf ?iou 2
      = Some [-8, -8, 24, 24, 4, 4, 4, 4, 4, 4, 4, 4, 4, 4, 0]"
    by (subst decode_face_Some) (simp_all add: generatePriors_7_7 numeral_eq_Suc)
  show ?thesis
    unfolding decode_loop_eq [OF cover]
    by (simp add: len upt3 r0 r1 r2)
qed


lemma NMSBoxes_7_7:
  "NMSBoxes (map faceBox [[3/4, 1/2, 10, 10, 4, 4, 4, 4, 4, 4, 4, 4, 4, 4, 1],
         [21/4, 1/2, 16, 16, 4, 4, 4, 4, 4, 4, 4, 4, 4, 4, 1],
         [-8, -8, 24, 24, 4, 4, 4, 4, 4, 4, 4, 4, 4, 4, 0]])
      (map faceScore [[3/4, 1/2, 10, 10, 4, 4, 4, 4, 4, 4, 4, 4, 4, 4, 1],
         [21/4, 1/2, 16, 16, 4, 4, 4, 4, 4, 4, 4, 4, 4, 4, 1],
         [-8, -8, 24, 24, 4, 4, 4, 4, 4, 4, 4, 4, 4, 4, 0]]) (9/10) (17/100) 1 5000 = [0, 1]"
proof -
  have upt3: "[0 ..< 3] = [0, Suc 0, 2::nat]"
    by (simp add: upt_rec)
  have b0: "faceBox [3/4, 1/2, 10, 10, 4, 4, 4, 4, 4, 4, 4, 4, 4, 4, 1]
      = \<lparr>rect_x = 0, rect_y = 0, rect_width = 10, rect_height = 10\<rparr>"
    by (simp add: faceBox_def float_to_int_def)
  have b1: "faceBox [21/4, 1/2, 16, 16, 4, 4, 4, 4, 4, 4, 4, 4, 4, 4, 1]
      = \<lparr>rect_x = 5, rect_y = 0, rect_width = 16, rect_height = 16\<rparr>"
    by (simp add: faceBox_def float_to_int_def)
  have iou01: "IoU \<lparr>rect_x = 0, rect_y = 0, rect_width = 10, rect_height = 10\<rparr>
      \<lparr>rect_x = 5, rect_y = 0, rect_width = 16, rect_height = 16\<rparr> = 50 / 306"
    by (simp add: IoU_def ratio_def intersection_area_def rect_area_def)
  have el: "eligible (map faceScore [[3/4, 1/2, 10, 10, 4, 4, 4, 4, 4, 4, 4, 4, 4, 4, 1],
         [21/4, 1/2, 16, 16, 4, 4, 4, 4, 4, 4, 4, 4, 4, 4, 1],
         [-8, -8, 24, 24, 4, 4, 4, 4, 4, 4, 4, 4, 4, 4, 0]]) (9/10) = [0, Suc 0]"
    by (simp add: eligible_def faceScore_def upt3)
  show ?thesis
    unfolding NMSBoxes_def el
    by (simp add: retain_top_k_def faceScore_def b0 b1 iou01)
qed

lemma detect_7_7:
  "detect 7 7
     [7/4, 3/2, 0, 0, 0, 0, 0, 0, 0, 0, 0, 0, 0, 0,
      185/32, 45/16, 0, 0, 0, 0, 0, 0, 0, 0, 0, 0, 0, 0,
      0, 0, 0, 0, 0, 0, 0, 0, 0, 0, 0, 0, 0, 0]
     [0, 1, 0, 1, 1, 0] [1, 1, 1] (9/10) (17/100) 5000 =
   Some [[3/4, 1/2, 10, 10, 4, 4, 4, 4, 4, 4, 4, 4, 4, 4, 1],
         [21/4, 1/2, 16, 16, 4, 4, 4, 4, 4, 4, 4, 4, 4, 4, 1]]"
  by (simp add: detect_def postProcess_def postProcess_with_eq [OF decode_7_7] NMSBoxes_7_7
      del: list.map)

lemma detect_eq:
  assumes "tensors_cover (length (generatePriors image_width image_height)) loc conf iou"
  shows "\<exists>faces. decode_loop (generatePriors image_width image_height) image_width image_height
              loc conf iou 0 [] = Some faces
     \<and> length faces \<noteq> Suc 0
     \<and> detect image_width image_height loc conf iou st nt topK =
        Some (if length faces > 1
              then map (\<lambda>idx. faces ! idx) (NMSBoxes (map faceBox faces) (map faceScore faces) st nt 1 topK)
              else faces)"
  using postProcess_eq [OF assms, of image_width image_height st nt topK]
    generatePriors_length_not_1 [of image_width image_height]
  by (auto simp: detect_def)

text \<open>
  C5. Every detection the pipeline returns has a fused score of at least score_threshold,
  whatever the number of decoded candidates. (The prior count is never one, and with no
  candidate the returned list is empty.)
\<close>

theorem detect_scores_reach_threshold:
  assumes "tensors_cover (length (generatePriors image_width image_height)) loc conf iou"
  shows "\<exists>dets. detect image_width image_height loc conf iou score_threshold nms_threshold top_k = Some dets
           \<and> (\<forall>d\<in>set dets. score_threshold \<le> faceScore d)"
proof -
  obtain faces where f: "length faces \<noteq> Suc 0"
    "detect image_width image_height loc conf iou score_threshold nms_threshold top_k =
        Some (if length faces > 1
              then map (\<lambda>idx. faces ! idx)
                (NMSBoxes (map faceBox faces) (map faceScore faces) score_threshold nms_threshold 1 top_k)
              else faces)"
    using detect_eq [OF assms] by blast
  show ?thesis
  proof (cases "length faces > 1")
    case True
    let ?keep = "NMSBoxes (map faceBox faces) (map faceScore faces) score_threshold nms_threshold 1 top_k"
    have "score_threshold \<le> faceScore (faces ! idx)" if "idx \<in> set ?keep" for idx
      using set_NMSBoxes [of "map faceBox faces" "map faceScore faces" score_threshold nms_threshold 1 top_k]
        that by auto
    with f(2) True show ?thesis by auto
  next
    case False
    with f(1) have "faces = []" by (cases faces) auto
    with f(2) show ?thesis by simp
  qed
qed

theorem detect_scores_reach_threshold_witness:
  "tensors_cover (length (generatePriors 7 7))
     [7/4, 3/2, 0, 0, 0, 0, 0, 0, 0, 0, 0, 0, 0, 0,
      185/32, 45/16, 0, 0, 0, 0, 0, 0, 0, 0, 0, 0, 0, 0,
      0, 0, 0, 0, 0, 0, 0, 0, 0, 0, 0, 0, 0, 0]
     [0, 1, 0, 1, 1, 0] [1, 1, 1]
   \<and> 9/10 \<le> faceScore [3/4, 1/2, 10, 10, 4, 4, 4, 4, 4, 4, 4, 4, 4, 4, 1]
   \<and> 9/10 \<le> faceScore [21/4, 1/2, 16, 16, 4, 4, 4, 4, 4, 4, 4, 4, 4, 4, 1]"
proof -
  have c: "tensors_cover (length (generatePriors 7 7))
     [7/4, 3/2, 0, 0, 0, 0, 0, 0, 0, 0, 0, 0, 0, 0,
      185/32, 45/16, 0, 0, 0, 0, 0, 0, 0, 0, 0, 0, 0, 0,
      0, 0, 0, 0, 0, 0, 0, 0, 0, 0, 0, 0, 0, 0]
     [0, 1, 0, 1, 1, 0] [1, 1, 1]"
    by (simp add: generatePriors_7_7 tensors_cover_def)
  from detect_scores_reach_threshold [OF c, of "9/10" "17/100" 5000] c show ?thesis
    unfolding detect_7_7 by simp
qed

text \<open>
  C6 as stated fails: at resolution 7 x 7 with nms_threshold 0.17 the pipeline returns two
  detections whose boxes overlap with an IoU of 55/301, above the threshold. Suppression
  compared the truncated boxes, whose IoU is 50/306.
\<close>

theorem detect_overlap_counterexample:
  "detect 7 7
     [7/4, 3/2, 0, 0, 0, 0, 0, 0, 0, 0, 0, 0, 0, 0,
      185/32, 45/16, 0, 0, 0, 0, 0, 0, 0, 0, 0, 0, 0, 0,
      0, 0, 0, 0, 0, 0, 0, 0, 0, 0, 0, 0, 0, 0]
     [0, 1, 0, 1, 1, 0] [1, 1, 1] (9/10) (17/100) 5000 =
   Some [[3/4, 1/2, 10, 10, 4, 4, 4, 4, 4, 4, 4, 4, 4, 4, 1],
         [21/4, 1/2, 16, 16, 4, 4, 4, 4, 4, 4, 4, 4, 4, 4, 1]]
   \<and> IoU_float (faceBox_float [3/4, 1/2, 10, 10, 4, 4, 4, 4, 4, 4, 4, 4, 4, 4, 1])
                (faceBox_float [21/4, 1/2, 16, 16, 4, 4, 4, 4, 4, 4, 4, 4, 4, 4, 1]) = 55 / 301
   \<and> \<not> (55 / 301 \<le> (17 / 100 :: real))"
  by (simp add: detect_7_7 IoU_float_def faceBox_float_def ratio_def intersection_area_def
      rect_area_def)

text \<open>
  C6, amended. For every two distinct detections of the returned list, the IoU of their
  boxes after truncation of x, y, width and height to integers is at most nms_threshold.
\<close>

theorem detect_truncated_overlap:
  assumes "tensors_cover (length (generatePriors image_width image_height)) loc conf iou"
  shows "\<exists>dets. detect image_width image_height loc conf iou score_threshold nms_threshold top_k = Some dets
           \<and> (\<forall>p<length dets. \<forall>q<length dets. p \<noteq> q \<longrightarrow>
                 IoU (faceBox (dets ! p)) (faceBox (dets ! q)) \<le> nms_threshold)"
proof -
  obtain faces where f: "length faces \<noteq> Suc 0"
    "detect image_width image_height loc conf iou score_threshold nms_threshold top_k =
        Some (if length faces > 1
              then map (\<lambda>idx. faces ! idx)
                (NMSBoxes (map faceBox faces) (map faceScore faces) score_threshold nms_threshold 1 top_k)
              else faces)"
    using detect_eq [OF assms] by blast
  show ?thesis
  proof (cases "length faces > 1")
    case True
    let ?keep = "NMSBoxes (map faceBox faces) (map faceScore faces) score_threshold nms_threshold 1 top_k"
    have range: "idx < length faces" if "idx \<in> set ?keep" for idx
      using set_NMSBoxes [of "map faceBox faces" "map faceScore faces" score_threshold nms_threshold 1 top_k]
        that by auto
    have ord: "sorted_wrt (\<lambda>i j. IoU (map faceBox faces ! i) (map faceBox faces ! j) \<le> nms_threshold) ?keep"
      by (rule NMSBoxes_overlap)
    have less: "IoU (faceBox (faces ! (?keep ! p))) (faceBox (faces ! (?keep ! q))) \<le> nms_threshold"
      if "p < q" "q < length ?keep" for p q
    proof -
      from that have "?keep ! p \<in> set ?keep" "?keep ! q \<in> set ?keep" by simp_all
      then have "?keep ! p < length faces" "?keep ! q < length faces" by (simp_all add: range)
      with sorted_wrt_nth_less [OF ord that] show ?thesis by simp
    qed
    have "IoU (faceBox (faces ! (?keep ! p))) (faceBox (faces ! (?keep ! q))) \<le> nms_threshold"
      if "p < length ?keep" "q < length ?keep" "p \<noteq> q" for p q
    proof (cases "p < q")
      case True
      with that show ?thesis by (simp add: less)
    next
      case False
      with that have "q < p" by simp
      with that less [of q p] show ?thesis by (simp add: IoU_commute)
    qed
    with f(2) True show ?thesis by simp
  next
    case False
    with f(1) have "faces = []" by (cases faces) auto
    with f(2) show ?thesis by simp
  qed
qed

theorem detect_truncated_overlap_witness:
  "tensors_cover (length (generatePriors 7 7))
     [7/4, 3/2, 0, 0, 0, 0, 0, 0, 0, 0, 0, 0, 0, 0,
      185/32, 45/16, 0, 0, 0, 0, 0, 0, 0, 0, 0, 0, 0, 0,
      0, 0, 0, 0, 0, 0, 0, 0, 0, 0, 0, 0, 0, 0]
     [0, 1, 0, 1, 1, 0] [1, 1, 1]
   \<and> IoU (faceBox [3/4, 1/2, 10, 10, 4, 4, 4, 4, 4, 4, 4, 4, 4, 4, 1])
           (faceBox [21/4, 1/2, 16, 16, 4, 4, 4, 4, 4, 4, 4, 4, 4, 4, 1]) \<le> 17 / 100
   \<and> IoU (faceBox [21/4, 1/2, 16, 16, 4, 4, 4, 4, 4, 4, 4, 4, 4, 4, 1])
           (faceBox [3/4, 1/2, 10, 10, 4, 4, 4, 4, 4, 4, 4, 4, 4, 4, 1]) \<le> 17 / 100"
proof -
  have c: "tensors_cover (length (generatePriors 7 7))
     [7/4, 3/2, 0, 0, 0, 0, 0, 0, 0, 0, 0, 0, 0, 0,
      185/32, 45/16, 0, 0, 0, 0, 0, 0, 0, 0, 0, 0, 0, 0,
      0, 0, 0, 0, 0, 0, 0, 0, 0, 0, 0, 0, 0, 0]
     [0, 1, 0, 1, 1, 0] [1, 1, 1]"
    by (simp add: generatePriors_7_7 tensors_cover_def)
  from detect_truncated_overlap [OF c, of "9/10" "17/100" 5000]
  have "\<forall>p<2. \<forall>q<2. p \<noteq> q \<longrightarrow>
         IoU (faceBox ([[3/4, 1/2, 10, 10, 4, 4, 4, 4, 4, 4, 4, 4, 4, 4, 1],
                        [21/4, 1/2, 16, 16, 4, 4, 4, 4, 4, 4, 4, 4, 4, 4, 1]] ! p))
             (faceBox ([[3/4, 1/2, 10, 10, 4, 4, 4, 4, 4, 4, 4, 4, 4, 4, 1],
                        [21/4, 1/2, 16, 16, 4, 4, 4, 4, 4, 4, 4, 4, 4, 4, 1]] ! q)) \<le> 17 / 100"
    unfolding detect_7_7 by simp
  from this [rule_format, of 0 1] this [rule_format, of 1 0] c show ?thesis
    by simp
qed

text \<open>
  C7. The returned list consists of the decoded candidates at the kept anchor indices, in
  an order of descending score in which, of two candidates of equal score, the one with
  the smaller anchor index comes first.
\<close>

theorem detect_order:
  assumes "tensors_cover (length (generatePriors image_width image_height)) loc conf iou"
  shows "\<exists>faces keepIdx.
           decode_loop (generatePriors image_width image_height) image_width image_height
             loc conf iou 0 [] = Some faces
         \<and> detect image_width image_height loc conf iou score_threshold nms_threshold top_k =
             Some (map (\<lambda>idx. faces ! idx) keepIdx)
         \<and> (\<forall>idx\<in>set keepIdx. idx < length faces)
         \<and> sorted_wrt (\<lambda>i j. faceScore (faces ! i) > faceScore (faces ! j)
               \<or> (faceScore (faces ! i) = faceScore (faces ! j) \<and> i < j)) keepIdx"
proof -
  obtain faces where f:
    "decode_loop (generatePriors image_width image_height) image_width image_height
       loc conf iou 0 [] = Some faces"
    "length faces \<noteq> Suc 0"
    "detect image_width image_height loc conf iou score_threshold nms_threshold top_k =
        Some (if length faces > 1
              then map (\<lambda>idx. faces ! idx)
                (NMSBoxes (map faceBox faces) (map faceScore faces) score_threshold nms_threshold 1 top_k)
              else faces)"
    using detect_eq [OF assms] by blast
  show ?thesis
  proof (cases "length faces > 1")
    case True
    let ?keep = "NMSBoxes (map faceBox faces) (map faceScore faces) score_threshold nms_threshold 1 top_k"
    have range: "\<forall>idx\<in>set ?keep. idx < length faces"
      using set_NMSBoxes [of "map faceBox faces" "map faceScore faces" score_threshold nms_threshold 1 top_k]
      by auto
    have "sorted_wrt (score_order (map faceScore faces)) ?keep"
      by (rule NMSBoxes_order)
    then have "sorted_wrt (\<lambda>i j. faceScore (faces ! i) > faceScore (faces ! j)
               \<or> (faceScore (faces ! i) = faceScore (faces ! j) \<and> i < j)) ?keep"
      by (rule sorted_wrt_mono_rel [rotated]) (use range in \<open>auto simp: score_order_def\<close>)
    with f True range show ?thesis by auto
  next
    case False
    with f(2) have "faces = []" by (cases faces) auto
    with f(1,3) show ?thesis by (intro exI [of _ "[]"]) simp
  qed
qed

theorem detect_order_witness:
  "tensors_cover (length (generatePriors 7 7))
     [7/4, 3/2, 0, 0, 0, 0, 0, 0, 0, 0, 0, 0, 0, 0,
      185/32, 45/16, 0, 0, 0, 0, 0, 0, 0, 0, 0, 0, 0, 0,
      0, 0, 0, 0, 0, 0, 0, 0, 0, 0, 0, 0, 0, 0]
     [0, 1, 0, 1, 1, 0] [1, 1, 1]
   \<and> (\<exists>faces keepIdx.
         decode_loop (generatePriors 7 7) 7 7
     [7/4, 3/2, 0, 0, 0, 0, 0, 0, 0, 0, 0, 0, 0, 0,
      185/32, 45/16, 0, 0, 0, 0, 0, 0, 0, 0, 0, 0, 0, 0,
      0, 0, 0, 0, 0, 0, 0, 0, 0, 0, 0, 0, 0, 0]
     [0, 1, 0, 1, 1, 0] [1, 1, 1] 0 [] = Some faces
       \<and> Some [[3/4, 1/2, 10, 10, 4, 4, 4, 4, 4, 4, 4, 4, 4, 4, 1],
               [21/4, 1/2, 16, 16, 4, 4, 4, 4, 4, 4, 4, 4, 4, 4, 1]] =
             Some (map (\<lambda>idx. faces ! idx) keepIdx)
       \<and> (\<forall>idx\<in>set keepIdx. idx < length faces)
       \<and> sorted_wrt (\<lambda>i j. faceScore (faces ! i) > faceScore (faces ! j)
               \<or> (faceScore (faces ! i) = faceScore (faces ! j) \<and> i < j)) keepIdx)"
proof -
  have c: "tensors_cover (length (generatePriors 7 7))
     [7/4, 3/2, 0, 0, 0, 0, 0, 0, 0, 0, 0, 0, 0, 0,
      185/32, 45/16, 0, 0, 0, 0, 0, 0, 0, 0, 0, 0, 0, 0,
      0, 0, 0, 0, 0, 0, 0, 0, 0, 0, 0, 0, 0, 0]
     [0, 1, 0, 1, 1, 0] [1, 1, 1]"
    by (simp add: generatePriors_7_7 tensors_cover_def)
  from detect_order [OF c, of "9/10" "17/100" 5000] c show ?thesis
    unfolding detect_7_7 by blast
qed

subsection \<open>Inputs the detector does not check\<close>

lemma rd_take: "k < m \<Longrightarrow> rd (take m v) k = rd v k"
  by (simp add: rd_def)

lemma decode_face_take:
  assumes "i < n"
  shows "decode_face priors img_w img_h (take (14 * n) loc) (take (2 * n) conf) (take n iou) i =
     decode_face priors img_w img_h loc conf iou i"
proof -
  have l: "rd (take (14 * n) loc) (i * 14 + k) = rd loc (i * 14 + k)" if "k < 14" for k
    using assms that by (intro rd_take) simp
  have c: "rd (take (2 * n) conf) (i * 2 + 1) = rd conf (i * 2 + 1)"
    using assms by (intro rd_take) simp
  have u: "rd (take n iou) i = rd iou i"
    using assms by (intro rd_take) simp
  show ?thesis
    unfolding decode_face_def by (simp only: l c u)
qed

lemma tensors_cover_take:
  "tensors_cover n loc conf iou \<Longrightarrow>
     tensors_cover n (take (14 * n) loc) (take (2 * n) conf) (take n iou)"
  by (simp add: tensors_cover_def)

lemma decode_loop_take:
  assumes "tensors_cover (length priors) loc conf iou"
  shows "decode_loop priors img_w img_h (take (14 * length priors) loc)
           (take (2 * length priors) conf) (take (length priors) iou) 0 [] =
         decode_loop priors img_w img_h loc conf iou 0 []"
  unfolding decode_loop_eq [OF assms] decode_loop_eq [OF tensors_cover_take [OF assms]]
  by (simp add: decode_face_take)

lemma detect_take:
  assumes "tensors_cover (length (generatePriors image_width image_height)) loc conf iou"
  shows "detect image_width image_height loc conf iou st nt k \<noteq> None"
    and "detect image_width image_height loc conf iou st nt k =
       detect image_width image_height
         (take (14 * length (generatePriors image_width image_height)) loc)
         (take (2 * length (generatePriors image_width image_height)) conf)
         (take (length (generatePriors image_width image_height)) iou) st nt k"
proof -
  show "detect image_width image_height loc conf iou st nt k \<noteq> None"
    using detect_eq [OF assms, of st nt k] by auto
  show "detect image_width image_height loc conf iou st nt k =
       detect image_width image_height
         (take (14 * length (generatePriors image_width image_height)) loc)
         (take (2 * length (generatePriors image_width image_height)) conf)
         (take (length (generatePriors image_width image_height)) iou) st nt k"
    by (simp add: detect_def postProcess_def postProcess_with_def decode_loop_take [OF assms])
qed

lemma detect_nonpositive:
  assumes "- 2147483648 \<le> image_width" "- 2147483648 \<le> image_height"
    "image_width \<le> 0 \<or> image_height \<le> 0"
  shows "detect image_width image_height loc conf iou st nt k = Some []"
proof -
  have "generatePriors image_width image_height = []"
    using assms by (rule generatePriors_nonpositive)
  moreover have "decode_loop [] image_width image_height loc conf iou 0 [] = Some []"
    by (subst decode_loop.simps) simp
  ultimately show ?thesis
    by (simp add: detect_def postProcess_def postProcess_with_def)
qed

lemma detect_7_7_four_rows:
  "detect 7 7
     [7/4, 3/2, 0, 0, 0, 0, 0, 0, 0, 0, 0, 0, 0, 0,
      185/32, 45/16, 0, 0, 0, 0, 0, 0, 0, 0, 0, 0, 0, 0,
      0, 0, 0, 0, 0, 0, 0, 0, 0, 0, 0, 0, 0, 0,
      0, 0, 0, 0, 0, 0, 0, 0, 0, 0, 0, 0, 0, 0]
     [0, 1, 0, 1, 1, 0, 0, 0] [1, 1, 1, 0] (9/10) (17/100) 5000 =
   Some [[3/4, 1/2, 10, 10, 4, 4, 4, 4, 4, 4, 4, 4, 4, 4, 1],
         [21/4, 1/2, 16, 16, 4, 4, 4, 4, 4, 4, 4, 4, 4, 4, 1]]"
proof -
  have c: "tensors_cover (length (generatePriors 7 7))
     [7/4, 3/2, 0, 0, 0, 0, 0, 0, 0, 0, 0, 0, 0, 0,
      185/32, 45/16, 0, 0, 0, 0, 0, 0, 0, 0, 0, 0, 0, 0,
      0, 0, 0, 0, 0, 0, 0, 0, 0, 0, 0, 0, 0, 0,
      0, 0, 0, 0, 0, 0, 0, 0, 0, 0, 0, 0, 0, 0]
     [0, 1, 0, 1, 1, 0, 0, 0] [1, 1, 1, 0]"
    by (simp add: generatePriors_7_7 tensors_cover_def)
  show ?thesis
    unfolding detect_take(2) [OF c] by (simp add: generatePriors_7_7 detect_7_7)
qed

text \<open>
  C9 as stated fails: the pipeline configured with the resolution 0 x 0 returns an empty
  detection list, and at 7 x 7, where there are three priors, tensors of four rows are
  accepted and decoded. Neither call fails.
\<close>

theorem detect_invalid_input_counterexample:
  "detect 0 0 [] [] [] (9/10) (3/10) 5000 = Some []
   \<and> length (generatePriors 7 7) = 3
   \<and> detect 7 7
     [7/4, 3/2, 0, 0, 0, 0, 0, 0, 0, 0, 0, 0, 0, 0,
      185/32, 45/16, 0, 0, 0, 0, 0, 0, 0, 0, 0, 0, 0, 0,
      0, 0, 0, 0, 0, 0, 0, 0, 0, 0, 0, 0, 0, 0,
      0, 0, 0, 0, 0, 0, 0, 0, 0, 0, 0, 0, 0, 0]
     [0, 1, 0, 1, 1, 0, 0, 0] [1, 1, 1, 0] (9/10) (17/100) 5000 =
   Some [[3/4, 1/2, 10, 10, 4, 4, 4, 4, 4, 4, 4, 4, 4, 4, 1],
         [21/4, 1/2, 16, 16, 4, 4, 4, 4, 4, 4, 4, 4, 4, 4, 1]]"
  by (simp add: detect_nonpositive detect_7_7_four_rows generatePriors_7_7)

text \<open>
  C9, amended. The pipeline checks neither the configured dimensions nor the row counts and
  signals no invalid-input condition. With a non-positive image dimension the prior list is
  empty and the pipeline returns the empty detection list, whatever the tensors. With
  tensors of at least as many rows as there are priors the pipeline returns a result, the
  one it returns for the tensors cut to the prior count: surplus rows are ignored.
\<close>

theorem detect_without_validation:
  "(- 2147483648 \<le> image_width \<and> - 2147483648 \<le> image_height
      \<and> (image_width \<le> 0 \<or> image_height \<le> 0)
     \<longrightarrow> detect image_width image_height loc conf iou score_threshold nms_threshold top_k = Some [])
   \<and> (tensors_cover (length (generatePriors image_width image_height)) loc conf iou
     \<longrightarrow> detect image_width image_height loc conf iou score_threshold nms_threshold top_k \<noteq> None
       \<and> detect image_width image_height loc conf iou score_threshold nms_threshold top_k =
           detect image_width image_height
             (take (14 * length (generatePriors image_width image_height)) loc)
             (take (2 * length (generatePriors image_width image_height)) conf)
             (take (length (generatePriors image_width image_height)) iou)
             score_threshold nms_threshold top_k)"
proof (intro conjI impI)
  assume "- 2147483648 \<le> image_width \<and> - 2147483648 \<le> image_height
      \<and> (image_width \<le> 0 \<or> image_height \<le> 0)"
  then show "detect image_width image_height loc conf iou score_threshold nms_threshold top_k = Some []"
    by (intro detect_nonpositive) simp_all
next
  assume "tensors_cover (length (generatePriors image_width image_height)) loc conf iou"
  then show "detect image_width image_height loc conf iou score_threshold nms_threshold top_k \<noteq> None"
    by (rule detect_take(1))
next
  assume "tensors_cover (length (generatePriors image_width image_height)) loc conf iou"
  then show "detect image_width image_height loc conf iou score_threshold nms_threshold top_k =
           detect image_width image_height
             (take (14 * length (generatePriors image_width image_height)) loc)
             (take (2 * length (generatePriors image_width image_height)) conf)
             (take (length (generatePriors image_width image_height)) iou)
             score_threshold nms_threshold top_k"
    by (rule detect_take(2))
qed

theorem detect_without_validation_witness:
  "detect 0 0 [] [] [] (9/10) (3/10) 5000 = Some []
   \<and> tensors_cover (length (generatePriors 7 7))
     [7/4, 3/2, 0, 0, 0, 0, 0, 0, 0, 0, 0, 0, 0, 0,
      185/32, 45/16, 0, 0, 0, 0, 0, 0, 0, 0, 0, 0, 0, 0,
      0, 0, 0, 0, 0, 0, 0, 0, 0, 0, 0, 0, 0, 0,
      0, 0, 0, 0, 0, 0, 0, 0, 0, 0, 0, 0, 0, 0]
     [0, 1, 0, 1, 1, 0, 0, 0] [1, 1, 1, 0]
   \<and> detect 7 7
     [7/4, 3/2, 0, 0, 0, 0, 0, 0, 0, 0, 0, 0, 0, 0,
      185/32, 45/16, 0, 0, 0, 0, 0, 0, 0, 0, 0, 0, 0, 0,
      0, 0, 0, 0, 0, 0, 0, 0, 0, 0, 0, 0, 0, 0,
      0, 0, 0, 0, 0, 0, 0, 0, 0, 0, 0, 0, 0, 0]
     [0, 1, 0, 1, 1, 0, 0, 0] [1, 1, 1, 0] (9/10) (17/100) 5000 \<noteq> None
   \<and> detect 7 7
     [7/4, 3/2, 0, 0, 0, 0, 0, 0, 0, 0, 0, 0, 0, 0,
      185/32, 45/16, 0, 0, 0, 0, 0, 0, 0, 0, 0, 0, 0, 0,
      0, 0, 0, 0, 0, 0, 0, 0, 0, 0, 0, 0, 0, 0,
      0, 0, 0, 0, 0, 0, 0, 0, 0, 0, 0, 0, 0, 0]
     [0, 1, 0, 1, 1, 0, 0, 0] [1, 1, 1, 0] (9/10) (17/100) 5000 =
     detect 7 7
     [7/4, 3/2, 0, 0, 0, 0, 0, 0, 0, 0, 0, 0, 0, 0,
      185/32, 45/16, 0, 0, 0, 0, 0, 0, 0, 0, 0, 0, 0, 0,
      0, 0, 0, 0, 0, 0, 0, 0, 0, 0, 0, 0, 0, 0]
     [0, 1, 0, 1, 1, 0] [1, 1, 1] (9/10) (17/100) 5000"
proof -
  have c: "tensors_cover (length (generatePriors 7 7))
     [7/4, 3/2, 0, 0, 0, 0, 0, 0, 0, 0, 0, 0, 0, 0,
      185/32, 45/16, 0, 0, 0, 0, 0, 0, 0, 0, 0, 0, 0, 0,
      0, 0, 0, 0, 0, 0, 0, 0, 0, 0, 0, 0, 0, 0,
      0, 0, 0, 0, 0, 0, 0, 0, 0, 0, 0, 0, 0, 0]
     [0, 1, 0, 1, 1, 0, 0, 0] [1, 1, 1, 0]"
    by (simp add: generatePriors_7_7 tensors_cover_def)
  have "detect 0 0 [] [] [] (9/10) (3/10) 5000 = Some []"
    using detect_without_validation [of 0 0 "[]" "[]" "[]" "9/10" "3/10" 5000] by simp
  moreover have "detect 7 7
     [7/4, 3/2, 0, 0, 0, 0, 0, 0, 0, 0, 0, 0, 0, 0,
      185/32, 45/16, 0, 0, 0, 0, 0, 0, 0, 0, 0, 0, 0, 0,
      0, 0, 0, 0, 0, 0, 0, 0, 0, 0, 0, 0, 0, 0,
      0, 0, 0, 0, 0, 0, 0, 0, 0, 0, 0, 0, 0, 0]
     [0, 1, 0, 1, 1, 0, 0, 0] [1, 1, 1, 0] (9/10) (17/100) 5000 \<noteq> None
   \<and> detect 7 7
     [7/4, 3/2, 0, 0, 0, 0, 0, 0, 0, 0, 0, 0, 0, 0,
      185/32, 45/16, 0, 0, 0, 0, 0, 0, 0, 0, 0, 0, 0, 0,
      0, 0, 0, 0, 0, 0, 0, 0, 0, 0, 0, 0, 0, 0,
      0, 0, 0, 0, 0, 0, 0, 0, 0, 0, 0, 0, 0, 0]
     [0, 1, 0, 1, 1, 0, 0, 0] [1, 1, 1, 0] (9/10) (17/100) 5000 =
     detect 7 7
     [7/4, 3/2, 0, 0, 0, 0, 0, 0, 0, 0, 0, 0, 0, 0,
      185/32, 45/16, 0, 0, 0, 0, 0, 0, 0, 0, 0, 0, 0, 0,
      0, 0, 0, 0, 0, 0, 0, 0, 0, 0, 0, 0, 0, 0]
     [0, 1, 0, 1, 1, 0] [1, 1, 1] (9/10) (17/100) 5000"
    using detect_without_validation [of 7 7
     "[7/4, 3/2, 0, 0, 0, 0, 0, 0, 0, 0, 0, 0, 0, 0,
      185/32, 45/16, 0, 0, 0, 0, 0, 0, 0, 0, 0, 0, 0, 0,
      0, 0, 0, 0, 0, 0, 0, 0, 0, 0, 0, 0, 0, 0,
      0, 0, 0, 0, 0, 0, 0, 0, 0, 0, 0, 0, 0, 0]"
     "[0, 1, 0, 1, 1, 0, 0, 0]" "[1, 1, 1, 0]" "9/10" "17/100" 5000] c
    by (simp add: generatePriors_7_7 detect_7_7)
  ultimately show ?thesis using c by blast
qed

subsection \<open>Suppression sees truncated boxes\<close>

lemma feature_maps_15_7:
  "feature_map_3rd 15 7 = \<lparr>width = 2, height = 1\<rparr>"
  "feature_map_4th 15 7 = \<lparr>width = 1, height = 0\<rparr>"
  "feature_map_5th 15 7 = \<lparr>width = 0, height = 0\<rparr>"
  "feature_map_6th 15 7 = \<lparr>width = 0, height = 0\<rparr>"
  by (simp_all add: feature_map_2nd_def feature_map_3rd_def feature_map_4th_def
      feature_map_5th_def feature_map_6th_def wrap32_def signed_divide_int_def)

lemma generatePriors_15_7:
  "generatePriors 15 7 =
     [\<lparr>rect_x = 4 / 15, rect_y = 4 / 7, rect_width = 10 / 15, rect_height = 10 / 7\<rparr>,
      \<lparr>rect_x = 4 / 15, rect_y = 4 / 7, rect_width = 16 / 15, rect_height = 16 / 7\<rparr>,
      \<lparr>rect_x = 4 / 15, rect_y = 4 / 7, rect_width = 24 / 15, rect_height = 24 / 7\<rparr>,
      \<lparr>rect_x = 12 / 15, rect_y = 4 / 7, rect_width = 10 / 15, rect_height = 10 / 7\<rparr>,
      \<lparr>rect_x = 12 / 15, rect_y = 4 / 7, rect_width = 16 / 15, rect_height = 16 / 7\<rparr>,
      \<lparr>rect_x = 12 / 15, rect_y = 4 / 7, rect_width = 24 / 15, rect_height = 24 / 7\<rparr>]"
proof -
  have "[0 .. 1] = [0, 1::int]"
    by (simp add: upto_rec1)
  then show ?thesis
    by (simp add: generatePriors_levels feature_maps_15_7 level_priors_spec_def)
qed

lemma decode_15_7:
  "decode_loop (generatePriors 15 7) 15 7
     [19/10, 1, 0, 0, 0, 0, 0, 0, 0, 0, 0, 0, 0, 0,
      0, 0, 0, 0, 0, 0, 0, 0, 0, 0, 0, 0, 0, 0,
      0, 0, 0, 0, 0, 0, 0, 0, 0, 0, 0, 0, 0, 0,
      - (59/10), 1, 0, 0, 0, 0, 0, 0, 0, 0, 0, 0, 0, 0,
      0, 0, 0, 0, 0, 0, 0, 0, 0, 0, 0, 0, 0, 0,
      0, 0, 0, 0, 0, 0, 0, 0, 0, 0, 0, 0, 0, 0]
     [0, 1, 1, 0, 1, 0, 0, 1, 1, 0, 1, 0] [1, 1, 1, 1, 1, 1] 0 [] =
   Some [[9/10, 0, 10, 10, 4, 4, 4, 4, 4, 4, 4, 4, 4, 4, 1],
         [-4, -4, 16, 16, 4, 4, 4, 4, 4, 4, 4, 4, 4, 4, 0],
         [-8, -8, 24, 24, 4, 4, 4, 4, 4, 4, 4, 4, 4, 4, 0],
         [11/10, 0, 10, 10, 12, 4, 12, 4, 12, 4, 12, 4, 12, 4, 1],
         [4, -4, 16, 16, 12, 4, 12, 4, 12, 4, 12, 4, 12, 4, 0],
         [0, -8, 24, 24, 12, 4, 12, 4, 12, 4, 12, 4, 12, 4, 0]]"
proof -
  let ?loc = "[19/10, 1, 0, 0, 0, 0, 0, 0, 0, 0, 0, 0, 0, 0,
      0, 0, 0, 0, 0, 0, 0, 0, 0, 0, 0, 0, 0, 0,
      0, 0, 0, 0, 0, 0, 0, 0, 0, 0, 0, 0, 0, 0,
      - (59/10), 1, 0, 0, 0, 0, 0, 0, 0, 0, 0, 0, 0, 0,
      0, 0, 0, 0, 0, 0, 0, 0, 0, 0, 0, 0, 0, 0,
      0, 0, 0, 0, 0, 0, 0, 0, 0, 0, 0, 0, 0, 0] :: real list"
  let ?conf = "[0, 1, 1, 0, 1, 0, 0, 1, 1, 0, 1, 0] :: real list"
  let ?iou = "[1, 1, 1, 1, 1, 1] :: real list"
  have len: "length (generatePriors 15 7) = 6"
    by (simp add: generatePriors_15_7)
  have cover: "tensors_cover (length (generatePriors 15 7)) ?loc ?conf ?iou"
    by (simp add: len tensors_cover_def)
  have upt6: "[0 ..< 6] = [0, Suc 0, 2, 3, 4, 5::nat]"
    by (simp add: upt_rec)
  have r0: "decode_face (generatePriors 15 7) 15 7 ?loc ?conf ?iou 0 = Some [9/10, 0, 10, 10, 4, 4, 4, 4, 4, 4, 4, 4, 4, 4, 1]"
    by (subst decode_face_Some) (simp_all add: generatePriors_15_7)
  have r1: "decode_face (generatePriors 15 7) 15 7 ?loc ?conf ?iou (Suc 0) = Some [-4, -4, 16, 16, 4, 4, 4, 4, 4, 4, 4, 4, 4, 4, 0]"
    by (subst decode_face_Some) (simp_all add: generatePriors_15_7 numeral_eq_Suc)
  have r2: "decode_face (generatePriors 15 7) 15 7 ?loc ?conf ?iou 2 = Some [-8, -8, 24, 24, 4, 4, 4, 4, 4, 4, 4, 4, 4, 4, 0]"
    by (subst decode_face_Some) (simp_all add: generatePriors_15_7 numeral_eq_Suc)
  have r3: "decode_face (generatePriors 15 7) 15 7 ?loc ?conf ?iou 3 = Some [11/10, 0, 10, 10, 12, 4, 12, 4, 12, 4, 12, 4, 12, 4, 1]"
    by (subst decode_face_Some) (simp_all add: generatePriors_15_7 numeral_eq_Suc)
  have r4: "decode_face (generatePriors 15 7) 15 7 ?loc ?conf ?iou 4 = Some [4, -4, 16, 16, 12, 4, 12, 4, 12, 4, 12, 4, 12, 4, 0]"
    by (subst decode_face_Some) (simp_all add: generatePriors_15_7 numeral_eq_Suc)
  have r5: "decode_face (generatePriors 15 7) 15 7 ?loc ?conf ?iou 5 = Some [0, -8, 24, 24, 12, 4, 12, 4, 12, 4, 12, 4, 12, 4, 0]"
    by (subst decode_face_Some) (simp_all add: generatePriors_15_7 numeral_eq_Suc)
  show ?thesis
    unfolding decode_loop_eq [OF cover]
    by (simp add: len upt6 r0 r1 r2 r3 r4 r5)
qed

lemma NMSBoxes_15_7:
  "NMSBoxes (map faceBox [[9/10, 0, 10, 10, 4, 4, 4, 4, 4, 4, 4, 4, 4, 4, 1],
         [-4, -4, 16, 16, 4, 4, 4, 4, 4, 4, 4, 4, 4, 4, 0],
         [-8, -8, 24, 24, 4, 4, 4, 4, 4, 4, 4, 4, 4, 4, 0],
         [11/10, 0, 10, 10, 12, 4, 12, 4, 12, 4, 12, 4, 12, 4, 1],
         [4, -4, 16, 16, 12, 4, 12, 4, 12, 4, 12, 4, 12, 4, 0],
         [0, -8, 24, 24, 12, 4, 12, 4, 12, 4, 12, 4, 12, 4, 0]])
      (map faceScore [[9/10, 0, 10, 10, 4, 4, 4, 4, 4, 4, 4, 4, 4, 4, 1],
         [-4, -4, 16, 16, 4, 4, 4, 4, 4, 4, 4, 4, 4, 4, 0],
         [-8, -8, 24, 24, 4, 4, 4, 4, 4, 4, 4, 4, 4, 4, 0],
         [11/10, 0, 10, 10, 12, 4, 12, 4, 12, 4, 12, 4, 12, 4, 1],
         [4, -4, 16, 16, 12, 4, 12, 4, 12, 4, 12, 4, 12, 4, 0],
         [0, -8, 24, 24, 12, 4, 12, 4, 12, 4, 12, 4, 12, 4, 0]]) (9/10) (9/10) 1 5000 = [0, 3]"
proof -
  have upt6: "[0 ..< 6] = [0, Suc 0, 2, 3, 4, 5::nat]"
    by (simp add: upt_rec)
  have b0: "faceBox [9/10, 0, 10, 10, 4, 4, 4, 4, 4, 4, 4, 4, 4, 4, 1] = \<lparr>rect_x = 0, rect_y = 0, rect_width = 10, rect_height = 10\<rparr>"
    by (simp add: faceBox_def float_to_int_def)
  have b3: "faceBox [11/10, 0, 10, 10, 12, 4, 12, 4, 12, 4, 12, 4, 12, 4, 1] = \<lparr>rect_x = 1, rect_y = 0, rect_width = 10, rect_height = 10\<rparr>"
    by (simp add: faceBox_def float_to_int_def)
  have iou03: "IoU \<lparr>rect_x = 0, rect_y = 0, rect_width = 10, rect_height = 10\<rparr>
      \<lparr>rect_x = 1, rect_y = 0, rect_width = 10, rect_height = 10\<rparr> = 9 / 11"
    by (simp add: IoU_def ratio_def intersection_area_def rect_area_def)
  have el: "eligible (map faceScore [[9/10, 0, 10, 10, 4, 4, 4, 4, 4, 4, 4, 4, 4, 4, 1],
         [-4, -4, 16, 16, 4, 4, 4, 4, 4, 4, 4, 4, 4, 4, 0],
         [-8, -8, 24, 24, 4, 4, 4, 4, 4, 4, 4, 4, 4, 4, 0],
         [11/10, 0, 10, 10, 12, 4, 12, 4, 12, 4, 12, 4, 12, 4, 1],
         [4, -4, 16, 16, 12, 4, 12, 4, 12, 4, 12, 4, 12, 4, 0],
         [0, -8, 24, 24, 12, 4, 12, 4, 12, 4, 12, 4, 12, 4, 0]]) (9/10) = [0, 3]"
    by (simp add: eligible_def faceScore_def upt6)
  show ?thesis
    unfolding NMSBoxes_def el
    by (simp add: retain_top_k_def faceScore_def b0 b3 iou03)
qed

text \<open>
  With the suppression of the specification and nms_threshold 0.9, the candidates of
  anchors 0 and 3 are both returned: their truncated boxes have an IoU of 9/11.
\<close>

lemma detect_15_7:
  "detect 15 7
     [19/10, 1, 0, 0, 0, 0, 0, 0, 0, 0, 0, 0, 0, 0,
      0, 0, 0, 0, 0, 0, 0, 0, 0, 0, 0, 0, 0, 0,
      0, 0, 0, 0, 0, 0, 0, 0, 0, 0, 0, 0, 0, 0,
      - (59/10), 1, 0, 0, 0, 0, 0, 0, 0, 0, 0, 0, 0, 0,
      0, 0, 0, 0, 0, 0, 0, 0, 0, 0, 0, 0, 0, 0,
      0, 0, 0, 0, 0, 0, 0, 0, 0, 0, 0, 0, 0, 0]
     [0, 1, 1, 0, 1, 0, 0, 1, 1, 0, 1, 0] [1, 1, 1, 1, 1, 1] (9/10) (9/10) 5000 =
   Some [[9/10, 0, 10, 10, 4, 4, 4, 4, 4, 4, 4, 4, 4, 4, 1],
         [11/10, 0, 10, 10, 12, 4, 12, 4, 12, 4, 12, 4, 12, 4, 1]]"
  by (simp add: detect_def postProcess_def postProcess_with_eq [OF decode_15_7] NMSBoxes_15_7
      del: list.map)






end
